theory Spec2Isabelle
  imports Complex_Main
begin

section \<open>Values, errors and tables\<close>

text \<open>
  The backtester works on pandas tables of Python floats and ints. A table is the list of
  its rows, in row order; a row carries its index label \<open>idx\<close>, since \<open>dynamic_hold\<close>
  addresses rows by label. Python ints are \<open>int\<close>. The input columns of a tick are finite
  floats, idealised as \<open>real\<close>; a computed float that may be missing or not finite is an
  \<open>fl\<close>: a finite value, an infinity or NaN (pandas' null). The sign of a zero is not
  modelled: a zero divisor counts as \<open>+0\<close>.
\<close>

datatype error = KeyError | IndexError | ValueError | LinAlgError | ZeroDivisionError

datatype fl = Fin real | PInf | NInf | NaN

definition bnd :: "error + 'a \<Rightarrow> ('a \<Rightarrow> error + 'b) \<Rightarrow> error + 'b" where
  "bnd m f = (case m of Inl e \<Rightarrow> Inl e | Inr x \<Rightarrow> f x)"

fun fl_neg :: "fl \<Rightarrow> fl" where
  "fl_neg (Fin a) = Fin (- a)"
| "fl_neg PInf = NInf"
| "fl_neg NInf = PInf"
| "fl_neg NaN = NaN"

fun fl_add :: "fl \<Rightarrow> fl \<Rightarrow> fl" where
  "fl_add (Fin a) (Fin b) = Fin (a + b)"
| "fl_add NaN _ = NaN"
| "fl_add _ NaN = NaN"
| "fl_add PInf NInf = NaN"
| "fl_add NInf PInf = NaN"
| "fl_add PInf _ = PInf"
| "fl_add _ PInf = PInf"
| "fl_add NInf _ = NInf"
| "fl_add _ NInf = NInf"

definition fl_sub :: "fl \<Rightarrow> fl \<Rightarrow> fl" where
  "fl_sub a b = fl_add a (fl_neg b)"

fun fl_scale_inf :: "fl \<Rightarrow> real \<Rightarrow> fl" where
  "fl_scale_inf i b = (if b = 0 then NaN else if 0 < b then i else fl_neg i)"

fun fl_mul :: "fl \<Rightarrow> fl \<Rightarrow> fl" where
  "fl_mul (Fin a) (Fin b) = Fin (a * b)"
| "fl_mul NaN _ = NaN"
| "fl_mul _ NaN = NaN"
| "fl_mul PInf (Fin b) = fl_scale_inf PInf b"
| "fl_mul NInf (Fin b) = fl_scale_inf NInf b"
| "fl_mul (Fin a) PInf = fl_scale_inf PInf a"
| "fl_mul (Fin a) NInf = fl_scale_inf NInf a"
| "fl_mul PInf PInf = PInf"
| "fl_mul NInf NInf = PInf"
| "fl_mul PInf NInf = NInf"
| "fl_mul NInf PInf = NInf"

fun fl_div :: "fl \<Rightarrow> fl \<Rightarrow> fl" where
  "fl_div (Fin a) (Fin b) =
     (if b \<noteq> 0 then Fin (a / b)
      else if 0 < a then PInf else if a < 0 then NInf else NaN)"
| "fl_div NaN _ = NaN"
| "fl_div _ NaN = NaN"
| "fl_div (Fin a) PInf = Fin 0"
| "fl_div (Fin a) NInf = Fin 0"
| "fl_div PInf (Fin b) = (if 0 \<le> b then PInf else NInf)"
| "fl_div NInf (Fin b) = (if 0 \<le> b then NInf else PInf)"
| "fl_div PInf PInf = NaN"
| "fl_div PInf NInf = NaN"
| "fl_div NInf PInf = NaN"
| "fl_div NInf NInf = NaN"

fun fl_sqrt :: "fl \<Rightarrow> fl" where
  "fl_sqrt (Fin a) = (if a < 0 then NaN else Fin (sqrt a))"
| "fl_sqrt PInf = PInf"
| "fl_sqrt NInf = NaN"
| "fl_sqrt NaN = NaN"

text \<open>Comparisons: every comparison with NaN is false.\<close>

fun fl_le :: "fl \<Rightarrow> fl \<Rightarrow> bool" where
  "fl_le (Fin a) (Fin b) = (a \<le> b)"
| "fl_le NaN _ = False"
| "fl_le _ NaN = False"
| "fl_le NInf _ = True"
| "fl_le _ PInf = True"
| "fl_le PInf _ = False"
| "fl_le _ NInf = False"

fun fl_lt :: "fl \<Rightarrow> fl \<Rightarrow> bool" where
  "fl_lt (Fin a) (Fin b) = (a < b)"
| "fl_lt NaN _ = False"
| "fl_lt _ NaN = False"
| "fl_lt PInf _ = False"
| "fl_lt _ NInf = False"
| "fl_lt NInf _ = True"
| "fl_lt _ PInf = True"

definition fl_ge :: "fl \<Rightarrow> fl \<Rightarrow> bool" where
  "fl_ge a b = fl_le b a"

definition fl_gt :: "fl \<Rightarrow> fl \<Rightarrow> bool" where
  "fl_gt a b = fl_lt b a"

text \<open>
  A tick of the input table \<open>px\<close>: the index label, the thirteen descriptive columns that
  \<open>backtest\<close> lists, and the feature and response columns by name (\<open>None\<close> is a missing
  value). A date is an integer that orders as the calendar does.
\<close>

record tick =
  idx :: int
  dt :: int
  date :: int
  time :: int
  price :: real
  qty :: real
  volume :: real
  open_interest :: real
  b1 :: real
  b1_size :: real
  s1 :: real
  s1_size :: real
  mid :: real
  second :: int
  cols :: "string \<rightharpoonup> real"

text \<open>
  The backtest table adds \<open>alpha\<close>; \<open>trade\<close> adds the column \<open>trade\<close> to it. The columns
  \<open>trade\<close>, \<open>pnl\<close> and \<open>transaction_fee\<close> are the fields \<open>trade_col\<close>, \<open>pnl_col\<close> and
  \<open>transaction_fee_col\<close>: the plain names are those of the functions and of the
  configuration entry.
\<close>

record bt_row = tick +
  alpha :: real

record tr_row = bt_row +
  trade_col :: int

record config =
  response_column :: string
  feature_column :: "string list"
  feature_freq :: "int list"
  feature_winsorize_prob :: "string \<rightharpoonup> real"
  feature_winsorize_bound :: "string \<rightharpoonup> real"
  response_winsorize_prob :: real
  response_winsorize_bound :: real
  training_period :: int
  holding_period :: int
  trade_trigger_threshold :: "real \<times> real"
  start_second :: int
  end_second :: int
  use_mid :: bool
  dynamic_unwinding :: bool
  unwinding_tick_move_upper_bound :: real
  unwinding_tick_move_lower_bound :: real
  tick_size :: real
  transaction_fee :: real

text \<open>
  The functions of \<open>hft.utils\<close> and \<open>hft.signal_utils\<close>, which are not among the sources,
  and the numerical routines of numpy, pandas and scikit-learn are parameters of the model,
  collected in one record. \<open>xy_corr\<close> returns the correlation matrix by row label, a row
  being the list of its (column label, value) pairs; \<open>winsorize\<close> returns a series on the
  index of its argument; \<open>np_linalg_inv\<close> returns \<open>None\<close> where \<open>np.linalg.inv\<close> raises
  \<open>LinAlgError\<close>, and a matrix of the shape of its argument otherwise.
  \<open>pd_missing_labels\<close> tells what a read of a series at a list of labels does when a label
  of the list is null or is carried by no row: such a read returns nulls for these labels
  in some versions of pandas and raises \<open>KeyError\<close> in others, and the parameter says
  whether the read of the given list returns.
\<close>

type_synonym matrix = "real list list"

record winsorize_option =
  x_prob :: real
  x_bound :: real
  y_prob :: real
  y_bound :: real

record lib =
  get_moving_column_name :: "string \<Rightarrow> int \<Rightarrow> int \<Rightarrow> string"
  get_raw_column_name :: "string \<Rightarrow> string"
  winsorize :: "real list \<Rightarrow> real \<Rightarrow> real \<Rightarrow> real list"
  xy_corr :: "tick list \<Rightarrow> int list \<Rightarrow> string \<Rightarrow> string \<Rightarrow> winsorize_option
              \<Rightarrow> (string \<rightharpoonup> (string \<times> fl) list)"
  safe_divide :: "fl \<Rightarrow> fl \<Rightarrow> fl"
  pd_argmax :: "(string \<times> fl) list \<Rightarrow> error + string"
  sk_lstsq :: "matrix \<Rightarrow> real list \<Rightarrow> real list"
  sk_r2_score :: "real list \<Rightarrow> real list \<Rightarrow> fl"
  np_linalg_inv :: "matrix \<Rightarrow> matrix option"
  np_nanmean :: "fl list \<Rightarrow> fl"
  np_corrcoef :: "real list \<Rightarrow> fl list \<Rightarrow> fl"
  pd_corr :: "real list \<Rightarrow> fl list \<Rightarrow> fl"
  pd_sum :: "fl list \<Rightarrow> fl"
  pd_mean :: "fl list \<Rightarrow> fl"
  pd_median :: "fl list \<Rightarrow> fl"
  pd_std :: "fl list \<Rightarrow> fl"
  pd_missing_labels :: "int option list \<Rightarrow> bool"

section \<open>Feature selection and model fitting\<close>

definition lookup :: "('k \<rightharpoonup> 'v) \<Rightarrow> 'k \<Rightarrow> error + 'v" where
  "lookup m k = (case m k of None \<Rightarrow> Inl KeyError | Some v \<Rightarrow> Inr v)"

fun sequenceE :: "(error + 'a) list \<Rightarrow> error + 'a list" where
  "sequenceE [] = Inr []"
| "sequenceE (m # ms) = bnd m (\<lambda>x. bnd (sequenceE ms) (\<lambda>xs. Inr (x # xs)))"

definition select_one :: "lib \<Rightarrow> tick list \<Rightarrow> config \<Rightarrow> string \<Rightarrow> error + string" where
  "select_one L train cfg feature =
     (let y_column = get_moving_column_name L (response_column cfg) 0 (holding_period cfg)
      in bnd (lookup (feature_winsorize_prob cfg) feature) (\<lambda>xp.
         bnd (lookup (feature_winsorize_bound cfg) feature) (\<lambda>xb.
         let winsorize_option = \<lparr>x_prob = xp, x_bound = xb,
                                   y_prob = response_winsorize_prob cfg,
                                   y_bound = response_winsorize_bound cfg\<rparr>;
             corr_mat = xy_corr L train (feature_freq cfg) feature (response_column cfg)
                          winsorize_option
         in bnd (lookup corr_mat y_column) (\<lambda>correlation. pd_argmax L correlation))))"

definition select_feature :: "lib \<Rightarrow> tick list \<Rightarrow> config \<Rightarrow> error + string list" where
  "select_feature L train cfg = sequenceE (map (select_one L train cfg) (feature_column cfg))"

text \<open>
  The fitted \<open>LinearRegression\<close> object and the dictionary \<open>stats\<close>. \<open>regr_data\<close> is
  held by column. scikit-learn refuses a design matrix without rows or without columns,
  and one whose length differs from the response, with a \<open>ValueError\<close>; with
  \<open>fit_intercept=False\<close> the intercept of the fitted object is 0.
\<close>

record regr =
  fit_intercept :: bool
  coef :: "real list"
  intercept :: real

record stats =
  rsq :: fl
  beta :: "real list"
  tstat :: "fl list"
  mse :: fl
  df_1 :: int
  df_2 :: int

definition dropna :: "string list \<Rightarrow> tick list \<Rightarrow> tick list" where
  "dropna cs rows = filter (\<lambda>r. \<forall>c\<in>set cs. cols r c \<noteq> None) rows"

definition column :: "string \<Rightarrow> tick list \<Rightarrow> real list" where
  "column c rows = List.map_filter (\<lambda>r. cols r c) rows"

fun winsorize_features ::
  "lib \<Rightarrow> config \<Rightarrow> string list \<Rightarrow> (string \<Rightarrow> real list) \<Rightarrow> error + (string \<Rightarrow> real list)" where
  "winsorize_features L cfg [] data = Inr data"
| "winsorize_features L cfg (feature # fs) data =
     (let raw_feature = get_raw_column_name L feature
      in bnd (lookup (feature_winsorize_prob cfg) raw_feature) (\<lambda>p.
         bnd (lookup (feature_winsorize_bound cfg) raw_feature) (\<lambda>b.
         winsorize_features L cfg fs (data(feature := winsorize L (data feature) p b)))))"

definition values_of :: "string list \<Rightarrow> (string \<Rightarrow> real list) \<Rightarrow> nat \<Rightarrow> matrix" where
  "values_of features data n = map (\<lambda>i. map (\<lambda>f. data f ! i) features) [0..<n]"

definition dot :: "real list \<Rightarrow> real list \<Rightarrow> real" where
  "dot u v = sum_list (map (\<lambda>(a, b). a * b) (zip u v))"

definition mat_mul :: "matrix \<Rightarrow> matrix \<Rightarrow> matrix" where
  "mat_mul A B = map (\<lambda>row. map (\<lambda>col. dot row col) (transpose B)) A"

definition diagonal :: "matrix \<Rightarrow> real list" where
  "diagonal M = map (\<lambda>i. M ! i ! i) [0..<length M]"

definition LinearRegression_fit :: "lib \<Rightarrow> matrix \<Rightarrow> real list \<Rightarrow> error + regr" where
  "LinearRegression_fit L x y =
     (if x = [] \<or> [] \<in> set x \<or> length x \<noteq> length y then Inl ValueError
      else Inr \<lparr>fit_intercept = False, coef = sk_lstsq L x y, intercept = 0\<rparr>)"

definition predict :: "regr \<Rightarrow> matrix \<Rightarrow> real list" where
  "predict regr x = map (\<lambda>row. dot row (coef regr) + intercept regr) x"

definition linalg_inv :: "lib \<Rightarrow> matrix \<Rightarrow> error + matrix" where
  "linalg_inv L m = (case np_linalg_inv L m of None \<Rightarrow> Inl LinAlgError | Some v \<Rightarrow> Inr v)"

text \<open>
  \<open>fit\<close>, in two parts: the data processing up to the arrays \<open>x\<close> and \<open>y\<close>, and the
  regression with its statistics.
\<close>

definition fit_data ::
  "lib \<Rightarrow> tick list \<Rightarrow> string list \<Rightarrow> config \<Rightarrow> error + matrix \<times> real list" where
  "fit_data L train features cfg =
     (let y_column = get_moving_column_name L (response_column cfg) 0 (holding_period cfg);
          regr_data = dropna (features @ [y_column]) train
      in bnd (winsorize_features L cfg features (\<lambda>c. column c regr_data)) (\<lambda>data1.
         let data = data1(y_column := winsorize L (data1 y_column) (response_winsorize_prob cfg)
                                         (response_winsorize_bound cfg))
         in Inr (values_of features data (length regr_data), data y_column)))"

definition fit :: "lib \<Rightarrow> tick list \<Rightarrow> string list \<Rightarrow> config \<Rightarrow> error + regr \<times> stats" where
  "fit L train features cfg =
     bnd (fit_data L train features cfg) (\<lambda>(x, y).
     bnd (LinearRegression_fit L x y) (\<lambda>regr.
       let n = int (length y);
           p = int (length features) + of_bool (fit_intercept regr);
           mse = fl_div (Fin (sum_list (map (\<lambda>(a, b). (a - b)\<^sup>2) (zip (predict regr x) y))))
                        (Fin (of_int (n - p)))
       in bnd (linalg_inv L (mat_mul (transpose x) x)) (\<lambda>xtx_inv.
          let se = map (\<lambda>d. fl_sqrt (fl_mul mse (Fin d))) (diagonal xtx_inv)
          in Inr (regr,
                  \<lparr>rsq = sk_r2_score L y (predict regr x),
                   beta = coef regr,
                   tstat = map (\<lambda>(b, s). fl_div (Fin b) s) (zip (coef regr) se),
                   mse = mse,
                   df_1 = p - 1,
                   df_2 = n - p\<rparr>))))"

section \<open>Walk-forward backtest\<close>

text \<open>
  A row of \<open>fitting_stats\<close> is the dictionary \<open>stats\<close> with the date (\<open>fs_date\<close>) and the
  two prediction diagnostics. Python's list indexing counts a negative index from the end
  and raises \<open>IndexError\<close> out of range. \<open>predict\<close> refuses a matrix that holds a value
  that is not finite.
\<close>

record fit_row = stats +
  fs_date :: int
  pred_rsq :: fl
  pred_mse :: fl

definition py_get :: "'a list \<Rightarrow> int \<Rightarrow> error + 'a" where
  "py_get xs i =
     (if 0 \<le> i \<and> i < int (length xs) then Inr (xs ! nat i)
      else if - int (length xs) \<le> i \<and> i < 0 then Inr (xs ! nat (int (length xs) + i))
      else Inl IndexError)"

definition training_snapshot :: "tick list \<Rightarrow> int list \<Rightarrow> config \<Rightarrow> int \<Rightarrow> int \<Rightarrow> error + tick list" where
  "training_snapshot px dates cfg i d =
     bnd (py_get dates (i - training_period cfg)) (\<lambda>lo.
       Inr (filter (\<lambda>r. date r \<ge> lo \<and> date r < d) px))"

definition fl_of :: "real option \<Rightarrow> fl" where
  "fl_of v = (case v of None \<Rightarrow> NaN | Some a \<Rightarrow> Fin a)"

definition fillna_median :: "lib \<Rightarrow> real option list \<Rightarrow> fl list" where
  "fillna_median L col =
     (let m = pd_median L (map fl_of col)
      in map (\<lambda>v. case v of None \<Rightarrow> m | Some a \<Rightarrow> Fin a) col)"

fun finite_row :: "fl list \<Rightarrow> error + real list" where
  "finite_row [] = Inr []"
| "finite_row (Fin a # vs) = bnd (finite_row vs) (\<lambda>as. Inr (a # as))"
| "finite_row (_ # vs) = Inl ValueError"

definition model_predict :: "regr \<Rightarrow> fl list list \<Rightarrow> error + real list" where
  "model_predict model X =
     (if X = [] then Inl ValueError
      else bnd (sequenceE (map finite_row X)) (\<lambda>x. Inr (predict model x)))"

text \<open>
  The distinct dates of a table in ascending order, \<open>dates = list(set(px.date))\<close> sorted.
\<close>

definition dates_of :: "'a tick_scheme list \<Rightarrow> int list" where
  "dates_of btdf = sort (remdups (map date btdf))"

text \<open>
  One pass of the loop of \<open>backtest\<close> (\<open>evaluate_day\<close>): the date, the training snapshot,
  the selection of the features and the fit of the model on the snapshot, and the rest of
  the body (\<open>predict_day\<close>), which takes the ticks of the date, \<open>px[px.date == date]\<close>,
  predicts them with the fitted model and completes the row of diagnostics.
\<close>

definition predict_day ::
  "lib \<Rightarrow> tick list \<Rightarrow> config \<Rightarrow> int \<Rightarrow> string list \<Rightarrow> regr \<Rightarrow> stats
   \<Rightarrow> error + bt_row list \<times> fit_row" where
  "predict_day L day cfg d features model stats =
     (let y_name = get_moving_column_name L (response_column cfg) 0 (holding_period cfg);
          px_i = map (\<lambda>r. r\<lparr>cols := cols r |` set (features @ [y_name])\<rparr>) day;
          filled = map (\<lambda>f. fillna_median L (map (\<lambda>r. cols r f) px_i)) features;
          x_new = map (\<lambda>k. map (\<lambda>col. col ! k) filled) [0..<length px_i];
          y_new = map (\<lambda>r. fl_of (cols r y_name)) px_i
      in bnd (model_predict model x_new) (\<lambda>alpha.
         let rsq' = pd_corr L alpha y_new;
             pred_resid = map (\<lambda>(a, y). fl_sub (Fin a) y) (zip alpha y_new);
             mse' = np_nanmean L (map (\<lambda>e. fl_mul e e) pred_resid)
         in Inr (map (\<lambda>(r, a). tick.extend r (bt_row.fields a)) (zip px_i alpha),
                 stats.extend stats (fit_row.fields d rsq' mse'))))"

definition evaluate_day ::
  "lib \<Rightarrow> tick list \<Rightarrow> config \<Rightarrow> int list \<Rightarrow> int \<Rightarrow> error + bt_row list \<times> fit_row" where
  "evaluate_day L px cfg dates i =
     bnd (py_get dates i) (\<lambda>d.
     bnd (training_snapshot px dates cfg i d) (\<lambda>train.
     bnd (select_feature L train cfg) (\<lambda>features.
     bnd (fit L train features cfg) (\<lambda>(model, stats).
       predict_day L (filter (\<lambda>r. date r = d) px) cfg d features model stats))))"

fun backtest_loop ::
  "lib \<Rightarrow> tick list \<Rightarrow> config \<Rightarrow> int list \<Rightarrow> int list \<Rightarrow> bt_row list \<times> fit_row list
   \<Rightarrow> error + bt_row list \<times> fit_row list" where
  "backtest_loop L px cfg dates [] acc = Inr acc"
| "backtest_loop L px cfg dates (i # rest) (btdf, fitting_stats) =
     bnd (evaluate_day L px cfg dates i) (\<lambda>(px_i, stats).
       backtest_loop L px cfg dates rest (btdf @ px_i, fitting_stats @ [stats]))"

definition backtest :: "lib \<Rightarrow> tick list \<Rightarrow> config \<Rightarrow> error + bt_row list \<times> fit_row list" where
  "backtest L px cfg =
     backtest_loop L px cfg (dates_of px)
       [training_period cfg .. int (length (dates_of px)) - 1] ([], [])"

section \<open>Trade decision\<close>

text \<open>
  \<open>trade\<close> writes the column by four masked assignments in turn; on one row each is a
  conditional overwrite of the value so far. \<open>trade_trigger_threshold[0]\<close> is the first
  component of the pair and \<open>[1]\<close> the second.
\<close>

definition trade_value :: "config \<Rightarrow> 'a bt_row_scheme \<Rightarrow> int" where
  "trade_value cfg r =
     (let t0 = (0::int);
          t1 = (if alpha r > snd (trade_trigger_threshold cfg) then 1 else t0);
          t2 = (if alpha r < fst (trade_trigger_threshold cfg) then - 1 else t1);
          t3 = (if second r > end_second cfg then 0 else t2);
          t4 = (if second r < start_second cfg then 0 else t3)
      in t4)"

definition trade :: "bt_row list \<Rightarrow> config \<Rightarrow> tr_row list" where
  "trade btdf cfg = map (\<lambda>r. bt_row.extend r (tr_row.fields (trade_value cfg r))) btdf"

section \<open>Position matching\<close>

text \<open>
  \<open>np.searchsorted(a, v)\<close> with the default \<open>side='left'\<close> is a binary search for the
  insertion point of \<open>v\<close> in \<open>a\<close>: it halves the range \<open>[lo, hi)\<close>, going right when the
  middle element is smaller than \<open>v\<close>.
\<close>

function bisect_left :: "int list \<Rightarrow> int \<Rightarrow> nat \<Rightarrow> nat \<Rightarrow> nat" where
  "bisect_left a v lo hi =
     (if lo < hi then
        (let m = lo + (hi - lo) div 2
         in if a ! m < v then bisect_left a v (m + 1) hi else bisect_left a v lo m)
      else lo)"
  by pat_completeness auto
termination
  by (relation "measure (\<lambda>(a, v, lo, hi). hi - lo)") auto

definition searchsorted :: "int list \<Rightarrow> int \<Rightarrow> nat" where
  "searchsorted a v = bisect_left a v 0 (length a)"

text \<open>
  \<open>get_fixed_period_close_second\<close>: the dates of the table in ascending order; for each
  date the rows of that date, the search of every row's \<open>second + holding_period\<close> in the
  seconds of the date, the index \<open>len\<close> replaced by \<open>len - 1\<close>, and the seconds at these
  indices; the lists of the dates are concatenated. (The column \<open>close_second\<close> that the
  function also stores in the table is written by \<open>pnl\<close> below.)
\<close>

definition fixed_close_of_date :: "'a tick_scheme list \<Rightarrow> config \<Rightarrow> int list" where
  "fixed_close_of_date bti cfg =
     (let close_index = map (\<lambda>r. searchsorted (map second bti) (second r + holding_period cfg)) bti;
          close_index' = map (\<lambda>k. if k = length close_index then length close_index - 1 else k)
                           close_index
      in map (\<lambda>k. map second bti ! k) close_index')"

definition get_fixed_period_close_second :: "'a tick_scheme list \<Rightarrow> config \<Rightarrow> int list" where
  "get_fixed_period_close_second btdf cfg =
     concat (map (\<lambda>d. fixed_close_of_date (filter (\<lambda>r. date r = d) btdf) cfg) (dates_of btdf))"

text \<open>
  A column read by label, \<open>bti.mid[i]\<close>: the row that carries the label, a \<open>KeyError\<close>
  when no row does. Labels are those of a pandas index without duplicates.
\<close>

definition loc :: "'a tick_scheme list \<Rightarrow> int \<Rightarrow> error + 'a tick_scheme" where
  "loc bti i = (case find (\<lambda>r. idx r = i) bti of None \<Rightarrow> Inl KeyError | Some r \<Rightarrow> Inr r)"

definition tick_change :: "config \<Rightarrow> real \<Rightarrow> 'a tick_scheme \<Rightarrow> fl" where
  "tick_change cfg mid_i r = fl_div (Fin (mid r - mid_i)) (Fin (tick_size cfg))"

definition cond :: "config \<Rightarrow> real \<Rightarrow> int \<Rightarrow> 'a tick_scheme \<Rightarrow> bool" where
  "cond cfg mid_i i r =
     ((fl_ge (tick_change cfg mid_i r) (Fin (unwinding_tick_move_upper_bound cfg)) \<or>
       fl_le (tick_change cfg mid_i r) (Fin (unwinding_tick_move_lower_bound cfg))) \<and>
      idx r > i)"

definition dynamic_hold :: "'a tick_scheme list \<Rightarrow> config \<Rightarrow> int \<Rightarrow> error + int" where
  "dynamic_hold bti cfg i =
     bnd (loc bti i) (\<lambda>ri.
       let idxs = map idx (filter (cond cfg (mid ri) i) bti)
       in if length idxs > 0 then Inr (hd idxs)
          else if bti = [] then Inl IndexError else Inr (idx (last bti)))"

text \<open>
  \<open>get_dynamic_period_close_second\<close>: per date, the close label of every row (null where
  \<open>trade\<close> read at the row's label is 0), then the column \<open>second\<close> read at the list of
  these labels, \<open>bti.second[close_index]\<close>. Where every label of the list is carried by a
  row the read returns the seconds of these rows; otherwise it returns, with a null for a
  label that is null or carried by no row, or raises \<open>KeyError\<close>, as the pandas at hand has
  it.
\<close>

definition second_at :: "'a tick_scheme list \<Rightarrow> int option \<Rightarrow> int option" where
  "second_at bti c =
     (case c of None \<Rightarrow> None
      | Some l \<Rightarrow> (case find (\<lambda>r. idx r = l) bti of None \<Rightarrow> None | Some r \<Rightarrow> Some (second r)))"

definition label_present :: "'a tick_scheme list \<Rightarrow> int option \<Rightarrow> bool" where
  "label_present bti c = (case c of None \<Rightarrow> False | Some l \<Rightarrow> l \<in> set (map idx bti))"

definition read_seconds :: "lib \<Rightarrow> 'a tick_scheme list \<Rightarrow> int option list \<Rightarrow> error + int option list" where
  "read_seconds L bti close_index =
     (if list_all (label_present bti) close_index \<or> pd_missing_labels L close_index
      then Inr (map (second_at bti) close_index)
      else Inl KeyError)"

definition close_index_of :: "'a tr_row_scheme list \<Rightarrow> config \<Rightarrow> int \<Rightarrow> error + int option" where
  "close_index_of bti cfg i =
     bnd (loc bti i) (\<lambda>r.
       if trade_col r = 0 then Inr None
       else bnd (dynamic_hold bti cfg i) (\<lambda>l. Inr (Some l)))"

definition dynamic_close_of_date ::
  "lib \<Rightarrow> 'a tr_row_scheme list \<Rightarrow> config \<Rightarrow> error + int option list" where
  "dynamic_close_of_date L bti cfg =
     bnd (sequenceE (map (close_index_of bti cfg) (map idx bti)))
       (\<lambda>close_index. read_seconds L bti close_index)"

definition get_dynamic_period_close_second ::
  "lib \<Rightarrow> 'a tr_row_scheme list \<Rightarrow> config \<Rightarrow> error + int option list" where
  "get_dynamic_period_close_second L btdf cfg =
     bnd (sequenceE (map (\<lambda>d. dynamic_close_of_date L (filter (\<lambda>r. date r = d) btdf) cfg)
                       (dates_of btdf)))
       (\<lambda>blocks. Inr (concat blocks))"

section \<open>Profit and loss\<close>

text \<open>
  The columns that \<open>pnl\<close> adds. \<open>close_second\<close> exists under the fixed-horizon policy only
  (\<open>None\<close>: no such column); \<open>matched_close_second\<close> is null where the dynamic policy has
  no close.
\<close>

record pnl_row = tr_row +
  open_price :: real
  close_second :: "int option"
  matched_close_second :: "int option"
  close_b1 :: fl
  close_s1 :: fl
  close_mid :: fl
  close_price :: fl
  pnl_col :: fl
  transaction_fee_col :: fl
  net_pnl :: fl

text \<open>
  Modelled from the spec: \<open>utils.left_join\<close> is not among the sources. The spec has it as
  a left join on (date, matched_close_second) against the same table re-keyed by second,
  deterministic, with the first match where several rows share a second: \<open>close_tick\<close> is
  the row the join finds for a row of the table, if any.
\<close>

definition close_tick :: "'a tick_scheme list \<Rightarrow> int \<Rightarrow> int option \<Rightarrow> 'a tick_scheme option" where
  "close_tick dummy_bt d m = find (\<lambda>c. date c = d \<and> Some (second c) = m) dummy_bt"

definition joined :: "('a tick_scheme \<Rightarrow> real) \<Rightarrow> 'a tick_scheme option \<Rightarrow> fl" where
  "joined col c = (case c of None \<Rightarrow> NaN | Some t \<Rightarrow> Fin (col t))"

definition pnl_of_row :: "config \<Rightarrow> tr_row list \<Rightarrow> tr_row \<Rightarrow> int option \<Rightarrow> pnl_row" where
  "pnl_of_row cfg btdf r m =
     (let open_price = (if use_mid cfg then mid r
                        else of_bool (trade_col r > 0) * s1 r + of_bool (trade_col r < 0) * b1 r);
          c = close_tick btdf (date r) m;
          close_b1 = joined b1 c;
          close_s1 = joined s1 c;
          close_mid = joined mid c;
          close_price = (if use_mid cfg then close_mid
                         else fl_add (fl_mul (Fin (of_bool (trade_col r > 0))) close_b1)
                                     (fl_mul (Fin (of_bool (trade_col r < 0))) close_s1));
          pnl = fl_mul (Fin (of_int (trade_col r))) (fl_sub close_price (Fin open_price));
          fee = fl_mul (fl_mul (Fin (transaction_fee cfg)) (Fin (of_int \<bar>trade_col r\<bar>)))
                       (fl_add (Fin open_price) close_price)
      in tr_row.extend r
           (pnl_row.fields open_price
              (if dynamic_unwinding cfg then None else Some (second r + holding_period cfg))
              m close_b1 close_s1 close_mid close_price pnl fee (fl_sub pnl fee)))"

definition pnl :: "lib \<Rightarrow> tr_row list \<Rightarrow> config \<Rightarrow> error + pnl_row list" where
  "pnl L btdf cfg =
     bnd (if dynamic_unwinding cfg then get_dynamic_period_close_second L btdf cfg
          else Inr (map Some (get_fixed_period_close_second btdf cfg)))
       (\<lambda>matched. Inr (map (\<lambda>(r, m). pnl_of_row cfg btdf r m) (zip btdf matched)))"

section \<open>Summary\<close>

text \<open>
  The record that \<open>summary\<close> returns; the six entries copied from the configuration carry
  the prefix \<open>res_\<close>. The win and loss rates are Python's \<open>int / int\<close>, which raises
  \<open>ZeroDivisionError\<close> on a zero divisor.
\<close>

record summary_res =
  res_training_period :: int
  res_trade_trigger_threshold :: real
  res_holding_period :: int
  res_use_mid :: bool
  res_unwinding_tick_move_upper_bound :: real
  res_unwinding_tick_move_lower_bound :: real
  n_trades :: int
  n_trading_days :: int
  n_trades_per_day :: fl
  winning_rate :: real
  losing_rate :: real
  net_winning_rate :: real
  net_losing_rate :: real
  total_pnl :: fl
  total_net_pnl :: fl
  avg_pnl_per_trade :: fl
  avg_net_pnl_per_trade :: fl
  med_pnl_per_trade :: fl
  med_net_pnl_per_trade :: fl
  avg_pnl_per_winning_trade :: fl
  avg_pnl_per_losing_trade :: fl
  avg_net_pnl_per_winning_trade :: fl
  avg_net_pnl_per_losing_trade :: fl
  avg_net_pnl_per_day :: fl
  avg_pnl_per_day :: fl
  std_pnl_per_trade :: fl
  std_net_pnl_per_trade :: fl
  corr_alpha_pnl :: fl
  corr_alpha_net_pnl :: fl

definition py_div :: "int \<Rightarrow> int \<Rightarrow> error + real" where
  "py_div a b = (if b = 0 then Inl ZeroDivisionError else Inr (of_int a / of_int b))"

definition count_where :: "('a \<Rightarrow> bool) \<Rightarrow> 'a list \<Rightarrow> int" where
  "count_where P xs = int (length (filter P xs))"

definition summary :: "lib \<Rightarrow> pnl_row list \<Rightarrow> config \<Rightarrow> error + summary_res" where
  "summary L btdf cfg =
     (let trades = filter (\<lambda>r. trade_col r \<noteq> 0) btdf;
          n = int (length trades);
          days = int (length (remdups (map date trades)));
          per_day = safe_divide L (Fin (of_int n)) (Fin (of_int days))
      in bnd (py_div (count_where (\<lambda>r. fl_gt (pnl_col r) (Fin 0)) trades) n) (\<lambda>win.
         bnd (py_div (count_where (\<lambda>r. fl_lt (pnl_col r) (Fin 0)) trades) n) (\<lambda>lose.
         bnd (py_div (count_where (\<lambda>r. fl_gt (net_pnl r) (Fin 0)) trades) n) (\<lambda>net_win.
         bnd (py_div (count_where (\<lambda>r. fl_lt (net_pnl r) (Fin 0)) trades) n) (\<lambda>net_lose.
         let tot = pd_sum L (map pnl_col trades);
             net_tot = pd_sum L (map net_pnl trades)
         in Inr \<lparr>res_training_period = training_period cfg,
                 res_trade_trigger_threshold = snd (trade_trigger_threshold cfg),
                 res_holding_period = holding_period cfg,
                 res_use_mid = use_mid cfg,
                 res_unwinding_tick_move_upper_bound = unwinding_tick_move_upper_bound cfg,
                 res_unwinding_tick_move_lower_bound = unwinding_tick_move_lower_bound cfg,
                 n_trades = n,
                 n_trading_days = days,
                 n_trades_per_day = per_day,
                 winning_rate = win,
                 losing_rate = lose,
                 net_winning_rate = net_win,
                 net_losing_rate = net_lose,
                 total_pnl = tot,
                 total_net_pnl = net_tot,
                 avg_pnl_per_trade = pd_mean L (map pnl_col trades),
                 avg_net_pnl_per_trade = pd_mean L (map net_pnl trades),
                 med_pnl_per_trade = pd_median L (map pnl_col trades),
                 med_net_pnl_per_trade = pd_median L (map net_pnl trades),
                 avg_pnl_per_winning_trade =
                   pd_mean L (map pnl_col (filter (\<lambda>r. fl_gt (pnl_col r) (Fin 0)) trades)),
                 avg_pnl_per_losing_trade =
                   pd_mean L (map pnl_col (filter (\<lambda>r. fl_lt (pnl_col r) (Fin 0)) trades)),
                 avg_net_pnl_per_winning_trade =
                   pd_mean L (map net_pnl (filter (\<lambda>r. fl_gt (net_pnl r) (Fin 0)) trades)),
                 avg_net_pnl_per_losing_trade =
                   pd_mean L (map net_pnl (filter (\<lambda>r. fl_lt (net_pnl r) (Fin 0)) trades)),
                 avg_net_pnl_per_day = safe_divide L net_tot (Fin (of_int days)),
                 avg_pnl_per_day = safe_divide L tot (Fin (of_int days)),
                 std_pnl_per_trade = pd_std L (map pnl_col trades),
                 std_net_pnl_per_trade = pd_std L (map net_pnl trades),
                 corr_alpha_pnl = np_corrcoef L (map alpha trades) (map pnl_col trades),
                 corr_alpha_net_pnl = np_corrcoef L (map alpha trades) (map pnl_col trades)\<rparr>)))))"

section \<open>Properties of tables and rows used in the statements\<close>

text \<open>
  The data model orders a table by date and, within a date, by second
  (\<open>table_ordered\<close>). \<open>index_increasing\<close> says that the index labels grow with the row
  position, as those of a pandas range index do; the labels of a table that was sorted
  or put together from several tables need not.
\<close>

definition table_ordered :: "'a tick_scheme list \<Rightarrow> bool" where
  "table_ordered btdf =
     sorted_wrt (\<lambda>a b. date a < date b \<or> (date a = date b \<and> second a \<le> second b)) btdf"

definition index_increasing :: "'a tick_scheme list \<Rightarrow> bool" where
  "index_increasing btdf = sorted_wrt (\<lambda>a b. idx a < idx b) btdf"

text \<open>The value that \<open>get_fixed_period_close_second\<close> computes for one row of a date.\<close>

definition fixed_close_of_row :: "'a tick_scheme list \<Rightarrow> config \<Rightarrow> 'a tick_scheme \<Rightarrow> int" where
  "fixed_close_of_row bti cfg r =
     (let k = searchsorted (map second bti) (second r + holding_period cfg)
      in map second bti ! (if k = length bti then length bti - 1 else k))"

text \<open>
  The tick move of row \<open>c\<close> from the open row \<open>r\<close> reaches a bound; the row at which the
  position opened at \<open>r\<close> is closed; the matched close second of a row.
\<close>

definition breach :: "config \<Rightarrow> 'a tick_scheme \<Rightarrow> 'a tick_scheme \<Rightarrow> bool" where
  "breach cfg r c =
     (fl_ge (tick_change cfg (mid r) c) (Fin (unwinding_tick_move_upper_bound cfg)) \<or>
      fl_le (tick_change cfg (mid r) c) (Fin (unwinding_tick_move_lower_bound cfg)))"

definition close_row_in :: "config \<Rightarrow> 'a tick_scheme list \<Rightarrow> 'a tick_scheme \<Rightarrow> 'a tick_scheme" where
  "close_row_in cfg bti r =
     (case find (breach cfg r) (filter (\<lambda>c. idx r < idx c) bti) of
        Some c \<Rightarrow> c | None \<Rightarrow> last bti)"

definition dynamic_close_of_row ::
  "config \<Rightarrow> 'a tr_row_scheme list \<Rightarrow> 'a tr_row_scheme \<Rightarrow> int option" where
  "dynamic_close_of_row cfg bti r =
     (if trade_col r = 0 then None else Some (second (close_row_in cfg bti r)))"

text \<open>
  The close label that \<open>get_dynamic_period_close_second\<close> collects for a row, and whether
  the read of the seconds at the close labels of a date returns: it does when every row of
  the date carries a trade, so that no label is null, or when the pandas in use reads a
  null label as null.
\<close>

definition close_label :: "config \<Rightarrow> 'a tr_row_scheme list \<Rightarrow> 'a tr_row_scheme \<Rightarrow> int option" where
  "close_label cfg bti r =
     (if trade_col r = 0 then None else Some (idx (close_row_in cfg bti r)))"

definition read_returns :: "lib \<Rightarrow> config \<Rightarrow> 'a tr_row_scheme list \<Rightarrow> bool" where
  "read_returns L cfg bti =
     (list_all (\<lambda>r. trade_col r \<noteq> 0) bti \<or> pd_missing_labels L (map (close_label cfg bti) bti))"

section \<open>Example inputs\<close>

definition ex_tick :: "int \<Rightarrow> int \<Rightarrow> int \<Rightarrow> real \<Rightarrow> real \<Rightarrow> (string \<rightharpoonup> real) \<Rightarrow> tick" where
  "ex_tick i d s b a c =
     \<lparr>idx = i, dt = d * 100000 + s, date = d, time = s, price = b, qty = 1, volume = 1,
      open_interest = 1, b1 = b, b1_size = 1, s1 = a, s1_size = 1, mid = (b + a) / 2,
      second = s, cols = c\<rparr>"

definition ex_bt :: "int \<Rightarrow> int \<Rightarrow> int \<Rightarrow> real \<Rightarrow> real \<Rightarrow> real \<Rightarrow> bt_row" where
  "ex_bt i d s b a al = tick.extend (ex_tick i d s b a Map.empty) (bt_row.fields al)"

definition ex_tr :: "int \<Rightarrow> int \<Rightarrow> int \<Rightarrow> real \<Rightarrow> real \<Rightarrow> real \<Rightarrow> int \<Rightarrow> tr_row" where
  "ex_tr i d s b a al t = bt_row.extend (ex_bt i d s b a al) (tr_row.fields t)"

definition ex_config :: config where
  "ex_config =
     \<lparr>response_column = ''tick_move'', feature_column = [''ofi''], feature_freq = [60],
      feature_winsorize_prob = [''ofi'' \<mapsto> 0], feature_winsorize_bound = [''ofi'' \<mapsto> 100],
      response_winsorize_prob = 0, response_winsorize_bound = 100,
      training_period = 2, holding_period = 60,
      trade_trigger_threshold = (- 1 / 2, 1 / 2),
      start_second = 34200, end_second = 54000,
      use_mid = False, dynamic_unwinding = False,
      unwinding_tick_move_upper_bound = 2, unwinding_tick_move_lower_bound = - 2,
      tick_size = 10, transaction_fee = 1 / 10000\<rparr>"

text \<open>A table of the first date of two: three ticks, then one tick of the next date.\<close>

definition ex_btdf :: "bt_row list" where
  "ex_btdf =
     [ex_bt 0 20131101 34200 100 110 1,
      ex_bt 1 20131101 34230 120 130 (- 1),
      ex_bt 2 20131101 34250 130 140 (1 / 5),
      ex_bt 3 20131104 60000 100 110 1]"

definition ex_trades :: "tr_row list" where
  "ex_trades =
     [ex_tr 0 20131101 34200 100 110 1 1,
      ex_tr 1 20131101 34230 120 130 (- 1) (- 1),
      ex_tr 2 20131101 34250 130 140 (1 / 5) 0,
      ex_tr 3 20131104 60000 100 110 1 0]"

text \<open>
  An instance of the library parameters, in exact arithmetic on the finite values, for
  models with one feature: column names without horizons, winsorizing as clipping to the
  absolute bound, one horizon variant per feature, the least-squares coefficient and the
  inverse of a one-column design, and a pandas that reads a missing label as null.
\<close>

definition ex_finite :: "fl list \<Rightarrow> real list" where
  "ex_finite xs = List.map_filter (\<lambda>v. case v of Fin a \<Rightarrow> Some a | _ \<Rightarrow> None) xs"

definition ex_sum :: "fl list \<Rightarrow> fl" where
  "ex_sum xs = Fin (sum_list (ex_finite xs))"

definition ex_mean :: "fl list \<Rightarrow> fl" where
  "ex_mean xs = fl_div (Fin (sum_list (ex_finite xs))) (Fin (real (length (ex_finite xs))))"

definition ex_median :: "fl list \<Rightarrow> fl" where
  "ex_median xs =
     (let v = sort (ex_finite xs); h = length v div 2
      in if v = [] then NaN
         else if odd (length v) then Fin (v ! h)
         else Fin ((v ! (h - 1) + v ! h) / 2))"

definition ex_ss :: "real list \<Rightarrow> real" where
  "ex_ss v = sum_list (map (\<lambda>x. (x - sum_list v / real (length v))\<^sup>2) v)"

definition ex_std :: "fl list \<Rightarrow> fl" where
  "ex_std xs =
     (let v = ex_finite xs
      in if length v < 2 then NaN else Fin (sqrt (ex_ss v / real (length v - 1))))"

definition ex_corr :: "fl list \<Rightarrow> fl list \<Rightarrow> fl" where
  "ex_corr xs ys =
     (let ps = List.map_filter (\<lambda>(x, y). case (x, y) of (Fin a, Fin b) \<Rightarrow> Some (a, b) | _ \<Rightarrow> None)
                 (zip xs ys);
          n = real (length ps);
          mx = sum_list (map fst ps) / n;
          my = sum_list (map snd ps) / n;
          sxy = sum_list (map (\<lambda>(a, b). (a - mx) * (b - my)) ps)
      in if ex_ss (map fst ps) = 0 \<or> ex_ss (map snd ps) = 0 then NaN
         else Fin (sxy / (sqrt (ex_ss (map fst ps)) * sqrt (ex_ss (map snd ps)))))"

definition ex_r2 :: "real list \<Rightarrow> real list \<Rightarrow> fl" where
  "ex_r2 y p =
     (let res = sum_list (map (\<lambda>(a, b). (a - b)\<^sup>2) (zip y p))
      in if ex_ss y = 0 then (if res = 0 then Fin 1 else Fin 0) else Fin (1 - res / ex_ss y))"

definition ex_argmax :: "(string \<times> fl) list \<Rightarrow> error + string" where
  "ex_argmax row =
     (case filter (\<lambda>(l, v). v \<noteq> NaN) row of
        [] \<Rightarrow> Inl ValueError
      | e # es \<Rightarrow> Inr (fst (foldl (\<lambda>(bl, bv) (l, v). if fl_lt bv v then (l, v) else (bl, bv)) e es)))"

definition ex_lib :: lib where
  "ex_lib =
     \<lparr>get_moving_column_name = (\<lambda>name back fwd. name),
      get_raw_column_name = (\<lambda>c. c),
      winsorize = (\<lambda>xs prob bound. map (\<lambda>x. max (- bound) (min bound x)) xs),
      xy_corr = (\<lambda>train freq feature resp opt.
                  [resp \<mapsto> [(feature, ex_corr (map (\<lambda>r. fl_of (cols r feature)) train)
                                                    (map (\<lambda>r. fl_of (cols r resp)) train))]]),
      safe_divide = (\<lambda>a b. if b = Fin 0 then Fin 0 else fl_div a b),
      pd_argmax = ex_argmax,
      sk_lstsq = (\<lambda>x y. [dot (map hd x) y / dot (map hd x) (map hd x)]),
      sk_r2_score = ex_r2,
      np_linalg_inv = (\<lambda>m. case m of [[a]] \<Rightarrow> if a = 0 then None else Some [[1 / a]]
                                   | _ \<Rightarrow> None),
      np_nanmean = ex_mean,
      np_corrcoef = (\<lambda>a b. if NaN \<in> set b then NaN else ex_corr (map Fin a) b),
      pd_corr = (\<lambda>a b. ex_corr (map Fin a) b),
      pd_sum = ex_sum,
      pd_mean = ex_mean,
      pd_median = ex_median,
      pd_std = ex_std,
      pd_missing_labels = (\<lambda>labels. True)\<rparr>"

text \<open>
  A history of three dates with two ticks each, with the feature \<open>ofi\<close> and the response
  \<open>tick_move\<close>; on the last date each tick misses one of the two.
\<close>

definition ex_px :: "tick list" where
  "ex_px =
     [ex_tick 0 20131101 34200 100 110 [''ofi'' \<mapsto> 1, ''tick_move'' \<mapsto> 2],
      ex_tick 1 20131101 34260 110 120 [''ofi'' \<mapsto> 2, ''tick_move'' \<mapsto> 4],
      ex_tick 2 20131104 34200 120 130 [''ofi'' \<mapsto> 3, ''tick_move'' \<mapsto> 7],
      ex_tick 3 20131104 34260 130 140 [''ofi'' \<mapsto> - 1, ''tick_move'' \<mapsto> - 2],
      ex_tick 4 20131105 34200 120 130 [''ofi'' \<mapsto> 2],
      ex_tick 5 20131105 34260 110 120 [''tick_move'' \<mapsto> 1]]"

definition ex_train :: "tick list" where
  "ex_train = filter (\<lambda>r. date r < 20131105) ex_px"

text \<open>
  A configuration with two features and one training date, and a history in which every
  tick of the training date misses one of the two features.
\<close>

definition ex_config2 :: config where
  "ex_config2 =
     ex_config\<lparr>feature_column := [''ofi'', ''oir''],
               feature_winsorize_prob := [''ofi'' \<mapsto> 0, ''oir'' \<mapsto> 0],
               feature_winsorize_bound := [''ofi'' \<mapsto> 100, ''oir'' \<mapsto> 100],
               training_period := 1\<rparr>"

definition ex_px_gaps :: "tick list" where
  "ex_px_gaps =
     [ex_tick 0 20131101 34200 100 110 [''ofi'' \<mapsto> 1, ''tick_move'' \<mapsto> 1],
      ex_tick 1 20131101 34260 110 120 [''ofi'' \<mapsto> 2, ''tick_move'' \<mapsto> 3],
      ex_tick 2 20131101 34320 120 130 [''oir'' \<mapsto> 1, ''tick_move'' \<mapsto> 2],
      ex_tick 3 20131101 34380 130 140 [''oir'' \<mapsto> 3, ''tick_move'' \<mapsto> 1],
      ex_tick 4 20131104 34200 120 130 [''ofi'' \<mapsto> 2, ''oir'' \<mapsto> 1, ''tick_move'' \<mapsto> 1],
      ex_tick 5 20131105 34200 110 120 [''ofi'' \<mapsto> 1, ''oir'' \<mapsto> 2, ''tick_move'' \<mapsto> 1]]"

definition ex_gaps_train :: "tick list" where
  "ex_gaps_train = filter (\<lambda>r. date r < 20131104) ex_px_gaps"

text \<open>
  A table of one date, ordered by second, whose index labels do not grow with the row
  position; the row at second 20 carries a trade.
\<close>

definition ex_shuffled :: "tr_row list" where
  "ex_shuffled =
     [ex_tr 5 20131101 10 120 130 0 0,
      ex_tr 2 20131101 20 100 110 1 1,
      ex_tr 9 20131101 30 100 110 0 0,
      ex_tr 3 20131101 40 100 110 0 0]"

text \<open>The table of \<open>ex_trades\<close> after \<open>pnl\<close>, and its rows without a trade.\<close>

definition ex_pnl :: "pnl_row list" where
  "ex_pnl = map (\<lambda>r. pnl_of_row ex_config ex_trades r (Some (if date r = 20131101 then 34250 else 60000)))
              ex_trades"

definition ex_pnl_idle :: "pnl_row list" where
  "ex_pnl_idle = filter (\<lambda>r. trade_col r = 0) ex_pnl"

lemmas ex_defs =
  ex_tick_def ex_bt_def ex_tr_def ex_config_def ex_btdf_def ex_trades_def ex_px_def ex_train_def
  tick.defs bt_row.defs tr_row.defs

section \<open>The error monad\<close>

lemma sequenceE_Inr_cong:
  "(\<And>x. x \<in> set xs \<Longrightarrow> g x = Inr (f x)) \<Longrightarrow> sequenceE (map g xs) = Inr (map f xs)"
  by (induction xs) (simp_all add: bnd_def)

section \<open>Trade decision: the threshold rule\<close>

lemma trade_length: "length (trade btdf cfg) = length btdf"
  by (simp add: trade_def)

lemma trade_nth:
  "k < length btdf \<Longrightarrow>
   trade btdf cfg ! k = bt_row.extend (btdf ! k) (tr_row.fields (trade_value cfg (btdf ! k)))"
  by (simp add: trade_def)

lemma trade_value_cases:
  "trade_value cfg r \<in> {1, - 1, 0} \<and>
   (\<not> (start_second cfg \<le> second r \<and> second r \<le> end_second cfg) \<longrightarrow> trade_value cfg r = 0) \<and>
   (trade_value cfg r = - 1 \<longleftrightarrow>
      alpha r < fst (trade_trigger_threshold cfg) \<and>
      start_second cfg \<le> second r \<and> second r \<le> end_second cfg) \<and>
   (trade_value cfg r = 1 \<longleftrightarrow>
      alpha r > snd (trade_trigger_threshold cfg) \<and> \<not> alpha r < fst (trade_trigger_threshold cfg) \<and>
      start_second cfg \<le> second r \<and> second r \<le> end_second cfg) \<and>
   (fst (trade_trigger_threshold cfg) \<le> snd (trade_trigger_threshold cfg) \<longrightarrow>
      (trade_value cfg r = 1 \<longleftrightarrow>
         alpha r > snd (trade_trigger_threshold cfg) \<and>
         start_second cfg \<le> second r \<and> second r \<le> end_second cfg) \<and>
      (trade_value cfg r = 0 \<longleftrightarrow>
         \<not> (alpha r > snd (trade_trigger_threshold cfg) \<and>
            start_second cfg \<le> second r \<and> second r \<le> end_second cfg) \<and>
         \<not> (alpha r < fst (trade_trigger_threshold cfg) \<and>
            start_second cfg \<le> second r \<and> second r \<le> end_second cfg)))"
proof -
  define a lo hi s b e where
    "a = alpha r" and "lo = fst (trade_trigger_threshold cfg)" and
    "hi = snd (trade_trigger_threshold cfg)" and "s = second r" and
    "b = start_second cfg" and "e = end_second cfg"
  have v: "trade_value cfg r =
             (if s < b then 0 else if e < s then 0 else if a < lo then - 1
              else if hi < a then 1 else 0)"
    by (simp add: trade_value_def Let_def a_def lo_def hi_def s_def b_def e_def)
  show ?thesis
    unfolding v a_def[symmetric] lo_def[symmetric] hi_def[symmetric] s_def[symmetric]
      b_def[symmetric] e_def[symmetric]
    by (cases "s < b"; cases "e < s"; cases "a < lo"; cases "hi < a"; simp; linarith?)
qed

text \<open>
  C5. Row \<open>k\<close> of the table that \<open>trade\<close> returns is row \<open>k\<close> of its input with the column
  \<open>trade\<close> added; the column is \<open>+1\<close>, \<open>-1\<close> or 0, and 0 for a second outside
  \<open>[start_second, end_second]\<close> whatever alpha is. With the lower trigger threshold not
  above the upper one, it is \<open>+1\<close> exactly when alpha is above the upper threshold and the
  second lies in the window, \<open>-1\<close> exactly when alpha is below the lower threshold and the
  second lies in the window, and 0 in every other case. (Whatever the thresholds, \<open>-1\<close> is
  assigned after \<open>+1\<close> and so wins where both conditions hold.)
\<close>

theorem trade_rule:
  assumes "k < length btdf"
  shows "length (trade btdf cfg) = length btdf \<and>
         bt_row.truncate (trade btdf cfg ! k) = btdf ! k \<and>
         trade_col (trade btdf cfg ! k) \<in> {1, - 1, 0} \<and>
         (\<not> (start_second cfg \<le> second (btdf ! k) \<and> second (btdf ! k) \<le> end_second cfg) \<longrightarrow>
            trade_col (trade btdf cfg ! k) = 0) \<and>
         (trade_col (trade btdf cfg ! k) = - 1 \<longleftrightarrow>
            alpha (btdf ! k) < fst (trade_trigger_threshold cfg) \<and>
            start_second cfg \<le> second (btdf ! k) \<and> second (btdf ! k) \<le> end_second cfg) \<and>
         (trade_col (trade btdf cfg ! k) = 1 \<longleftrightarrow>
            alpha (btdf ! k) > snd (trade_trigger_threshold cfg) \<and>
            \<not> alpha (btdf ! k) < fst (trade_trigger_threshold cfg) \<and>
            start_second cfg \<le> second (btdf ! k) \<and> second (btdf ! k) \<le> end_second cfg) \<and>
         (fst (trade_trigger_threshold cfg) \<le> snd (trade_trigger_threshold cfg) \<longrightarrow>
            (trade_col (trade btdf cfg ! k) = 1 \<longleftrightarrow>
               alpha (btdf ! k) > snd (trade_trigger_threshold cfg) \<and>
               start_second cfg \<le> second (btdf ! k) \<and> second (btdf ! k) \<le> end_second cfg) \<and>
            (trade_col (trade btdf cfg ! k) = 0 \<longleftrightarrow>
               \<not> (alpha (btdf ! k) > snd (trade_trigger_threshold cfg) \<and>
                  start_second cfg \<le> second (btdf ! k) \<and> second (btdf ! k) \<le> end_second cfg) \<and>
               \<not> (alpha (btdf ! k) < fst (trade_trigger_threshold cfg) \<and>
                  start_second cfg \<le> second (btdf ! k) \<and> second (btdf ! k) \<le> end_second cfg)))"
proof -
  have t: "trade_col (trade btdf cfg ! k) = trade_value cfg (btdf ! k)"
    using assms by (simp add: trade_nth bt_row.defs tr_row.defs)
  have tr: "bt_row.truncate (trade btdf cfg ! k) = btdf ! k"
    using assms by (simp add: trade_nth bt_row.defs tr_row.defs)
  show ?thesis
    unfolding t by (intro conjI trade_length tr trade_value_cases[THEN conjunct1]
      trade_value_cases[THEN conjunct2, THEN conjunct1]
      trade_value_cases[THEN conjunct2, THEN conjunct2, THEN conjunct1]
      trade_value_cases[THEN conjunct2, THEN conjunct2, THEN conjunct2, THEN conjunct1]
      trade_value_cases[THEN conjunct2, THEN conjunct2, THEN conjunct2, THEN conjunct2])
qed

theorem trade_rule_witness:
  "fst (trade_trigger_threshold ex_config) \<le> snd (trade_trigger_threshold ex_config) \<and>
   (0::nat) < length ex_btdf \<and> (1::nat) < length ex_btdf \<and> (3::nat) < length ex_btdf \<and>
   map alpha ex_btdf = [1, - 1, 1 / 5, 1] \<and> map second ex_btdf = [34200, 34230, 34250, 60000] \<and>
   trade_col (trade ex_btdf ex_config ! 0) = 1 \<and>
   trade_col (trade ex_btdf ex_config ! 1) = - 1 \<and>
   trade_col (trade ex_btdf ex_config ! 3) = 0"
proof -
  have h: "fst (trade_trigger_threshold ex_config) \<le> snd (trade_trigger_threshold ex_config)"
    by (simp add: ex_config_def)
  have k0: "(0::nat) < length ex_btdf" and k1: "(1::nat) < length ex_btdf"
    and k3: "(3::nat) < length ex_btdf"
    by (simp_all add: ex_btdf_def)
  have c: "start_second ex_config = 34200" "end_second ex_config = 54000"
    "trade_trigger_threshold ex_config = (- 1 / 2, 1 / 2)"
    by (simp_all add: ex_config_def)
  have a: "map alpha ex_btdf = [1, - 1, 1 / 5, 1]"
    and s: "map second ex_btdf = [34200, 34230, 34250, 60000]"
    by (simp_all add: ex_btdf_def ex_bt_def ex_tick_def tick.defs bt_row.defs)
  have r: "alpha (ex_btdf ! 0) = 1" "second (ex_btdf ! 0) = 34200"
    "alpha (ex_btdf ! Suc 0) = - 1" "second (ex_btdf ! Suc 0) = 34230"
    "second (ex_btdf ! 3) = 60000"
    by (simp_all add: ex_btdf_def ex_bt_def ex_tick_def tick.defs bt_row.defs)
  have t0: "trade_col (trade ex_btdf ex_config ! 0) = 1"
    using trade_rule[OF k0, of ex_config] h by (simp add: c r)
  have t1: "trade_col (trade ex_btdf ex_config ! 1) = - 1"
    using trade_rule[OF k1, of ex_config] by (simp add: c r)
  have t3: "trade_col (trade ex_btdf ex_config ! 3) = 0"
    using trade_rule[OF k3, of ex_config] by (simp add: c r)
  show ?thesis by (intro conjI h k0 k1 k3 a s t0 t1 t3)
qed

section \<open>Fixed-horizon matching: the binary search and the grouping by date\<close>


lemma bisect_left_spec:
  "sorted a \<Longrightarrow> lo \<le> hi \<Longrightarrow> hi \<le> length a \<Longrightarrow>
   (\<forall>j<lo. a ! j < v) \<Longrightarrow> (\<forall>j. hi \<le> j \<and> j < length a \<longrightarrow> v \<le> a ! j) \<Longrightarrow>
   lo \<le> bisect_left a v lo hi \<and> bisect_left a v lo hi \<le> hi \<and>
   (\<forall>j<bisect_left a v lo hi. a ! j < v) \<and>
   (\<forall>j. bisect_left a v lo hi \<le> j \<and> j < length a \<longrightarrow> v \<le> a ! j)"
proof (induction a v lo hi rule: bisect_left.induct)
  case (1 a v lo hi)
  show ?case
  proof (cases "lo < hi")
    case False
    with "1.prems" show ?thesis by (simp add: bisect_left.simps[of a v lo hi])
  next
    case True
    define m where "m = lo + (hi - lo) div 2"
    have m: "lo \<le> m" "m < hi" using True by (auto simp: m_def)
    show ?thesis
    proof (cases "a ! m < v")
      case lt: True
      have below: "\<forall>j<m + 1. a ! j < v"
      proof (intro allI impI)
        fix j assume "j < m + 1"
        then have "j \<le> m" by simp
        with "1.prems"(1,3) m have "a ! j \<le> a ! m"
          by (auto intro!: sorted_nth_mono)
        with lt show "a ! j < v" by simp
      qed
      have eq: "bisect_left a v lo hi = bisect_left a v (m + 1) hi"
        using True lt by (subst bisect_left.simps) (simp add: m_def Let_def)
      from "1.IH"(1)[OF True m_def lt "1.prems"(1) _ "1.prems"(3) below "1.prems"(5)] m
      show ?thesis unfolding eq by auto
    next
      case ge: False
      have above: "\<forall>j. m \<le> j \<and> j < length a \<longrightarrow> v \<le> a ! j"
      proof (intro allI impI)
        fix j assume j: "m \<le> j \<and> j < length a"
        with "1.prems"(1) have "a ! m \<le> a ! j"
          by (auto intro!: sorted_nth_mono)
        with ge show "v \<le> a ! j" by simp
      qed
      have eq: "bisect_left a v lo hi = bisect_left a v lo m"
        using True ge by (subst bisect_left.simps) (simp add: m_def Let_def)
      from m "1.prems"(3) have mlen: "m \<le> length a" by simp
      from "1.IH"(2)[OF True m_def ge "1.prems"(1) m(1) mlen "1.prems"(4) above] m
      show ?thesis unfolding eq by auto
    qed
  qed
qed

lemma searchsorted_takeWhile:
  assumes "sorted a"
  shows "searchsorted a v = length (takeWhile (\<lambda>x. x < v) a)"
proof -
  let ?r = "searchsorted a v"
  from bisect_left_spec[OF assms, of 0 "length a" v]
  have r: "?r \<le> length a" "\<forall>j<?r. a ! j < v" "\<forall>j. ?r \<le> j \<and> j < length a \<longrightarrow> v \<le> a ! j"
    by (auto simp: searchsorted_def)
  have "takeWhile (\<lambda>x. x < v) a = take ?r a"
  proof (rule takeWhile_eq_take_P_nth)
    fix i assume "i < ?r" "i < length a"
    with r(2) show "a ! i < v" by simp
  next
    assume "?r < length a"
    with r(3) show "\<not> a ! ?r < v" by (simp add: not_less)
  qed
  with r(1) show ?thesis by simp
qed

lemma find_takeWhile:
  "find P xs = (if length (takeWhile (\<lambda>x. \<not> P x) xs) < length xs
                then Some (xs ! length (takeWhile (\<lambda>x. \<not> P x) xs)) else None)"
  by (induction xs) auto


lemma filter_prefix_of_sorted:
  "sorted (map key xs) \<Longrightarrow> \<forall>x\<in>set xs. (d::int) \<le> key x \<Longrightarrow>
   filter (\<lambda>r. key r = d) xs = takeWhile (\<lambda>r. key r = d) xs"
proof (induction xs)
  case Nil
  then show ?case by simp
next
  case (Cons x xs)
  show ?case
  proof (cases "key x = d")
    case True
    with Cons show ?thesis by simp
  next
    case False
    with Cons.prems have "\<forall>y\<in>set xs. key y \<noteq> d" by fastforce
    with False show ?thesis by (simp add: filter_empty_conv)
  qed
qed

lemma filter_dropWhile_other:
  "d' \<noteq> d \<Longrightarrow> filter (\<lambda>r. key r = d') (dropWhile (\<lambda>r. key r = d) xs) = filter (\<lambda>r. key r = d') xs"
  by (induction xs) auto

lemma dropWhile_keys_above:
  "sorted (map key xs) \<Longrightarrow> \<forall>x\<in>set xs. (d::int) \<le> key x \<Longrightarrow>
   \<forall>x\<in>set (dropWhile (\<lambda>r. key r = d) xs). d < key x"
proof (induction xs)
  case Nil
  then show ?case by simp
next
  case (Cons x xs)
  then show ?case by (cases "key x = d") fastforce+
qed

lemma concat_groups_gen:
  "sorted ds \<Longrightarrow> distinct ds \<Longrightarrow> sorted (map key xs) \<Longrightarrow> key ` set xs \<subseteq> set ds \<Longrightarrow>
   concat (map (\<lambda>d::int. filter (\<lambda>r. key r = d) xs) ds) = xs"
proof (induction ds arbitrary: xs)
  case Nil
  then show ?case by simp
next
  case (Cons d ds)
  let ?rest = "dropWhile (\<lambda>r. key r = d) xs"
  have lower: "\<forall>x\<in>set xs. d \<le> key x"
    using Cons.prems(1,4) by auto
  have head: "filter (\<lambda>r. key r = d) xs = takeWhile (\<lambda>r. key r = d) xs"
    by (rule filter_prefix_of_sorted[OF Cons.prems(3) lower])
  have "d \<notin> set ds" using Cons.prems(2) by simp
  then have others: "map (\<lambda>d'. filter (\<lambda>r. key r = d') xs) ds = map (\<lambda>d'. filter (\<lambda>r. key r = d') ?rest) ds"
    by (intro map_cong refl) (metis filter_dropWhile_other)
  have srt: "sorted (map key ?rest)"
    using Cons.prems(3) by (metis map_append sorted_append takeWhile_dropWhile_id)
  have "\<forall>x\<in>set ?rest. d < key x"
    by (rule dropWhile_keys_above[OF Cons.prems(3) lower])
  moreover have "set ?rest \<subseteq> set xs" by (rule set_dropWhileD[THEN subsetI]) 
  ultimately have sub: "key ` set ?rest \<subseteq> set ds"
    using Cons.prems(4) by fastforce
  have "concat (map (\<lambda>d'. filter (\<lambda>r. key r = d') ?rest) ds) = ?rest"
    using Cons.IH[OF _ _ srt sub] Cons.prems(1,2) by simp
  then have "concat (map (\<lambda>d'. filter (\<lambda>r. key r = d') xs) (d # ds))
           = takeWhile (\<lambda>r. key r = d) xs @ ?rest"
    unfolding list.map concat.simps head others by (rule arg_cong)
  then show ?case by simp
qed

lemma concat_groups:
  assumes "sorted (map date btdf)"
  shows "concat (map (\<lambda>d. filter (\<lambda>r. date r = d) btdf) (dates_of btdf)) = btdf"
  by (rule concat_groups_gen) (use assms in \<open>auto simp: dates_of_def\<close>)

lemma concat_map_groups:
  assumes "sorted (map date btdf)"
  shows "concat (map (\<lambda>d. map (g (filter (\<lambda>r. date r = d) btdf)) (filter (\<lambda>r. date r = d) btdf))
                   (dates_of btdf))
         = map (\<lambda>r. g (filter (\<lambda>c. date c = date r) btdf) r) btdf"
proof -
  have "concat (map (\<lambda>d. map (g (filter (\<lambda>r. date r = d) btdf)) (filter (\<lambda>r. date r = d) btdf))
                   (dates_of btdf))
      = concat (map (\<lambda>d. map (\<lambda>r. g (filter (\<lambda>c. date c = date r) btdf) r) (filter (\<lambda>r. date r = d) btdf))
                   (dates_of btdf))"
    by (intro arg_cong[where f=concat] map_cong refl) auto
  also have "\<dots> = map (\<lambda>r. g (filter (\<lambda>c. date c = date r) btdf) r)
                     (concat (map (\<lambda>d. filter (\<lambda>r. date r = d) btdf) (dates_of btdf)))"
    by (simp add: map_concat comp_def)
  finally show ?thesis by (simp add: concat_groups[OF assms])
qed

lemma table_ordered_dates: "table_ordered btdf \<Longrightarrow> sorted (map date btdf)"
  unfolding table_ordered_def by (induction btdf) auto

lemma table_ordered_seconds:
  "table_ordered btdf \<Longrightarrow> sorted (map second (filter (\<lambda>r. date r = d) btdf))"
  unfolding table_ordered_def by (induction btdf) auto


lemma fixed_close_of_date_map:
  "fixed_close_of_date bti cfg = map (fixed_close_of_row bti cfg) bti"
  by (simp add: fixed_close_of_date_def fixed_close_of_row_def Let_def)

lemma fixed_close_of_row_find:
  assumes "sorted (map second bti)" and "bti \<noteq> []"
  shows "fixed_close_of_row bti cfg r =
           (case find (\<lambda>c. second r + holding_period cfg \<le> second c) bti of
              Some c \<Rightarrow> second c
            | None \<Rightarrow> second (last bti))"
proof -
  let ?v = "second r + holding_period cfg"
  let ?k = "length (takeWhile (\<lambda>c. \<not> ?v \<le> second c) bti)"
  have "searchsorted (map second bti) ?v = length (takeWhile (\<lambda>x. x < ?v) (map second bti))"
    by (rule searchsorted_takeWhile[OF assms(1)])
  also have "\<dots> = ?k"
    by (simp add: takeWhile_map comp_def not_le)
  finally have k: "searchsorted (map second bti) ?v = ?k" .
  have kle: "?k \<le> length bti" by (rule length_takeWhile_le)
  show ?thesis
  proof (cases "?k < length bti")
    case True
    then show ?thesis
      by (simp add: fixed_close_of_row_def k Let_def find_takeWhile[of _ bti])
  next
    case False
    with kle have "?k = length bti" by simp
    then show ?thesis using assms(2)
      by (simp add: fixed_close_of_row_def k Let_def find_takeWhile[of _ bti] last_conv_nth)
  qed
qed

lemma get_fixed_map:
  assumes "table_ordered btdf"
  shows "get_fixed_period_close_second btdf cfg =
           map (\<lambda>r. case find (\<lambda>c. second r + holding_period cfg \<le> second c)
                               (filter (\<lambda>c. date c = date r) btdf) of
                       Some c \<Rightarrow> second c
                     | None \<Rightarrow> second (last (filter (\<lambda>c. date c = date r) btdf))) btdf"
proof -
  have eq: "get_fixed_period_close_second btdf cfg =
          map (\<lambda>r. fixed_close_of_row (filter (\<lambda>c. date c = date r) btdf) cfg r) btdf"
    unfolding get_fixed_period_close_second_def fixed_close_of_date_map
    by (rule concat_map_groups[OF table_ordered_dates[OF assms]])
  show ?thesis
    unfolding eq
  proof (rule map_cong[OF refl])
    fix r assume r: "r \<in> set btdf"
    let ?bti = "filter (\<lambda>c. date c = date r) btdf"
    from r have "r \<in> set ?bti" by simp
    then have ne: "?bti \<noteq> []" by (metis empty_iff list.set(1))
    have srt: "sorted (map second ?bti)"
      by (rule table_ordered_seconds[OF assms])
    show "fixed_close_of_row ?bti cfg r =
            (case find (\<lambda>c. second r + holding_period cfg \<le> second c) ?bti of
               Some c \<Rightarrow> second c | None \<Rightarrow> second (last ?bti))"
      by (rule fixed_close_of_row_find[OF srt ne])
  qed
qed

lemma filter_length_split:
  "d \<notin> S \<Longrightarrow> length (filter (\<lambda>r. key r = d) xs) + length (filter (\<lambda>r. key r \<in> S) xs)
     = length (filter (\<lambda>r. key r \<in> insert d S) xs)"
  by (induction xs) auto

lemma sum_group_lengths:
  "distinct ds \<Longrightarrow>
   sum_list (map (\<lambda>d. length (filter (\<lambda>r. key r = d) xs)) ds)
     = length (filter (\<lambda>r. key r \<in> set ds) xs)"
proof (induction ds)
  case Nil
  then show ?case by simp
next
  case (Cons d ds)
  then show ?case using filter_length_split[of d "set ds" key xs] by simp
qed

lemma group_lengths_total:
  "sum_list (map (\<lambda>d. length (filter (\<lambda>r. date r = d) btdf)) (dates_of btdf)) = length btdf"
proof -
  have "distinct (dates_of btdf)" by (simp add: dates_of_def)
  from sum_group_lengths[OF this, of date btdf] show ?thesis
    by (simp add: dates_of_def)
qed

lemma get_fixed_length: "length (get_fixed_period_close_second btdf cfg) = length btdf"
proof -
  have "length (get_fixed_period_close_second btdf cfg)
        = sum_list (map (\<lambda>d. length (filter (\<lambda>r. date r = d) btdf)) (dates_of btdf))"
    by (simp add: get_fixed_period_close_second_def length_concat comp_def
                  fixed_close_of_date_map)
  then show ?thesis by (simp add: group_lengths_total)
qed

lemma ex_trades_ordered: "table_ordered ex_trades"
  by (simp add: table_ordered_def ex_defs)

lemma ex_fixed_close:
  "get_fixed_period_close_second ex_trades (ex_config\<lparr>use_mid := u\<rparr>) = [34250, 34250, 34250, 60000]"
  by (subst get_fixed_map[OF ex_trades_ordered]) (simp add: ex_defs)

text \<open>
  C3. On a table ordered by date and second, the list that
  \<open>get_fixed_period_close_second\<close> returns has one entry per row, and the entry of row \<open>k\<close>
  is the second of the first tick of the row's date whose second is at least the row's
  second plus \<open>holding_period\<close>, or the second of the last tick of that date when there is
  no such tick; so it is at least the row's second plus \<open>holding_period\<close>, or the last
  second of the date.
\<close>

theorem fixed_close_second_first_tick:
  assumes "table_ordered btdf" and "k < length btdf"
  shows "length (get_fixed_period_close_second btdf cfg) = length btdf \<and>
         get_fixed_period_close_second btdf cfg ! k =
           (case find (\<lambda>c. second (btdf ! k) + holding_period cfg \<le> second c)
                      (filter (\<lambda>c. date c = date (btdf ! k)) btdf) of
              Some c \<Rightarrow> second c
            | None \<Rightarrow> second (last (filter (\<lambda>c. date c = date (btdf ! k)) btdf))) \<and>
         (second (btdf ! k) + holding_period cfg \<le> get_fixed_period_close_second btdf cfg ! k \<or>
          get_fixed_period_close_second btdf cfg ! k =
            second (last (filter (\<lambda>c. date c = date (btdf ! k)) btdf)))"
proof -
  let ?bti = "filter (\<lambda>c. date c = date (btdf ! k)) btdf"
  let ?P = "\<lambda>c. second (btdf ! k) + holding_period cfg \<le> second c"
  have m: "get_fixed_period_close_second btdf cfg ! k =
             (case find ?P ?bti of Some c \<Rightarrow> second c | None \<Rightarrow> second (last ?bti))"
    using assms(2) by (simp add: get_fixed_map[OF assms(1)])
  have "second (btdf ! k) + holding_period cfg \<le> get_fixed_period_close_second btdf cfg ! k \<or>
        get_fixed_period_close_second btdf cfg ! k = second (last ?bti)"
  proof (cases "find ?P ?bti")
    case None
    with m show ?thesis by simp
  next
    case (Some c)
    then have "?P c" by (auto simp: find_Some_iff)
    with Some m show ?thesis by simp
  qed
  with m show ?thesis by (simp add: get_fixed_length)
qed

theorem fixed_close_second_first_tick_witness:
  "table_ordered ex_trades \<and> (0::nat) < length ex_trades \<and>
   length (get_fixed_period_close_second ex_trades ex_config) = length ex_trades \<and>
   get_fixed_period_close_second ex_trades ex_config ! 0 = 34250"
proof -
  have h: "table_ordered ex_trades"
    by (simp add: table_ordered_def ex_defs)
  have k: "(0::nat) < length ex_trades"
    by (simp add: ex_trades_def)
  show ?thesis
    using h k fixed_close_second_first_tick[OF h k, of ex_config]
    by (simp add: ex_defs)
qed

section \<open>Dynamic unwinding\<close>


lemma hd_filter_find:
  "filter P xs \<noteq> [] \<Longrightarrow> find P xs = Some (hd (filter P xs))"
  by (induction xs) auto

lemma find_Some_set: "find P xs = Some x \<Longrightarrow> x \<in> set xs"
  by (induction xs) (auto split: if_splits)

lemma find_None_filter: "find P xs = None \<longleftrightarrow> filter P xs = []"
  by (induction xs) auto

lemma find_filter_conj: "find P (filter Q xs) = find (\<lambda>c. Q c \<and> P c) xs"
  by (induction xs) auto

lemma sequenceE_length: "sequenceE ms = Inr xs \<Longrightarrow> length xs = length ms"
  by (induction ms arbitrary: xs) (auto simp: bnd_def split: sum.splits)

lemma sequenceE_lengths:
  "sequenceE (map g ds) = Inr bs \<Longrightarrow> (\<And>d b. g d = Inr b \<Longrightarrow> length b = n d) \<Longrightarrow>
   map length bs = map n ds"
  by (induction ds arbitrary: bs) (auto simp: bnd_def split: sum.splits)

lemma sequenceE_if:
  "(\<And>x. x \<in> set xs \<Longrightarrow> g x = (if P x then Inr (f x) else Inl e)) \<Longrightarrow>
   sequenceE (map g xs) = (if list_all P xs then Inr (map f xs) else Inl e)"
  by (induction xs) (simp_all add: bnd_def)

lemma index_increasing_filter: "index_increasing btdf \<Longrightarrow> index_increasing (filter P btdf)"
  unfolding index_increasing_def by (rule sorted_wrt_filter)

lemma index_increasing_distinct: "index_increasing btdf \<Longrightarrow> distinct (map idx btdf)"
  unfolding index_increasing_def by (induction btdf) auto

lemma loc_in:
  assumes "distinct (map idx bti)" and "r \<in> set bti"
  shows "loc bti (idx r) = Inr r" and "find (\<lambda>c. idx c = idx r) bti = Some r"
proof -
  have "find (\<lambda>c. idx c = idx r) bti = Some r"
    using assms by (induction bti) (auto simp: image_iff)
  then show "loc bti (idx r) = Inr r" "find (\<lambda>c. idx c = idx r) bti = Some r"
    by (simp_all add: loc_def)
qed

lemma dynamic_hold_close_row:
  assumes "distinct (map idx bti)" and "r \<in> set bti"
  shows "dynamic_hold bti cfg (idx r) = Inr (idx (close_row_in cfg bti r))"
proof -
  have ne: "bti \<noteq> []" using assms(2) by auto
  have flt: "filter (cond cfg (mid r) (idx r)) bti
             = filter (breach cfg r) (filter (\<lambda>c. idx r < idx c) bti)"
    by (simp add: cond_def[abs_def] breach_def[abs_def] conj_commute)
  show ?thesis
  proof (cases "filter (cond cfg (mid r) (idx r)) bti = []")
    case True
    then have "find (breach cfg r) (filter (\<lambda>c. idx r < idx c) bti) = None"
      by (simp add: flt find_None_filter)
    with True ne show ?thesis
      by (simp add: dynamic_hold_def loc_in(1)[OF assms] bnd_def close_row_in_def)
  next
    case False
    then have "find (breach cfg r) (filter (\<lambda>c. idx r < idx c) bti)
               = Some (hd (filter (cond cfg (mid r) (idx r)) bti))"
      unfolding flt by (rule hd_filter_find)
    with False show ?thesis
      by (simp add: dynamic_hold_def loc_in(1)[OF assms] bnd_def close_row_in_def hd_map)
  qed
qed

lemma close_row_in_set:
  "r \<in> set bti \<Longrightarrow> close_row_in cfg bti r \<in> set bti"
proof -
  assume r: "r \<in> set bti"
  then have ne: "bti \<noteq> []" by auto
  show ?thesis
  proof (cases "find (breach cfg r) (filter (\<lambda>c. idx r < idx c) bti)")
    case None
    with ne show ?thesis by (simp add: close_row_in_def)
  next
    case (Some c)
    then have "c \<in> set (filter (\<lambda>c. idx r < idx c) bti)"
      by (rule find_Some_set)
    with Some show ?thesis by (simp add: close_row_in_def)
  qed
qed

lemma close_row_in_find:
  "close_row_in cfg (filter (\<lambda>c. date c = d) btdf) r
   = (case find (\<lambda>c. date c = d \<and> idx r < idx c \<and> breach cfg r c) btdf of
        Some c \<Rightarrow> c | None \<Rightarrow> last (filter (\<lambda>c. date c = d) btdf))"
  unfolding close_row_in_def find_filter_conj ..

lemma close_labels_present:
  "list_all (label_present bti) (map (close_label cfg bti) bti)
   \<longleftrightarrow> list_all (\<lambda>r. trade_col r \<noteq> 0) bti"
proof -
  have "label_present bti (close_label cfg bti r) \<longleftrightarrow> trade_col r \<noteq> 0" if "r \<in> set bti" for r
    using close_row_in_set[OF that, of cfg]
    by (simp add: label_present_def close_label_def)
  then show ?thesis by (simp add: list_all_iff)
qed

lemma dynamic_close_of_date_eq:
  assumes "distinct (map idx bti)"
  shows "dynamic_close_of_date L bti cfg
         = (if read_returns L cfg bti then Inr (map (dynamic_close_of_row cfg bti) bti)
            else Inl KeyError)"
proof -
  have ci: "close_index_of bti cfg (idx r) = Inr (close_label cfg bti r)"
    if "r \<in> set bti" for r
    by (simp add: close_index_of_def loc_in(1)[OF assms that] bnd_def close_label_def
                  dynamic_hold_close_row[OF assms that])
  have sq: "sequenceE (map (close_index_of bti cfg) (map idx bti))
            = Inr (map (close_label cfg bti) bti)"
    unfolding map_map comp_def by (rule sequenceE_Inr_cong) (rule ci)
  have "second_at bti (close_label cfg bti r) = dynamic_close_of_row cfg bti r"
    if "r \<in> set bti" for r
    using loc_in(2)[OF assms close_row_in_set[OF that, of cfg]]
    by (simp add: second_at_def dynamic_close_of_row_def close_label_def)
  then have rd: "map (second_at bti) (map (close_label cfg bti) bti)
                 = map (dynamic_close_of_row cfg bti) bti"
    by simp
  show ?thesis
    unfolding dynamic_close_of_date_def sq bnd_def sum.case read_seconds_def rd
              close_labels_present read_returns_def ..
qed

lemma get_dynamic_eq:
  assumes "sorted (map date btdf)" and "distinct (map idx btdf)"
  shows "get_dynamic_period_close_second L btdf cfg
         = (if list_all (\<lambda>d. read_returns L cfg (filter (\<lambda>r. date r = d) btdf)) (dates_of btdf)
            then Inr (map (\<lambda>r. dynamic_close_of_row cfg (filter (\<lambda>c. date c = date r) btdf) r) btdf)
            else Inl KeyError)"
proof -
  have "sequenceE (map (\<lambda>d. dynamic_close_of_date L (filter (\<lambda>r. date r = d) btdf) cfg)
                       (dates_of btdf))
        = (if list_all (\<lambda>d. read_returns L cfg (filter (\<lambda>r. date r = d) btdf)) (dates_of btdf)
           then Inr (map (\<lambda>d. map (dynamic_close_of_row cfg (filter (\<lambda>r. date r = d) btdf))
                                   (filter (\<lambda>r. date r = d) btdf)) (dates_of btdf))
           else Inl KeyError)"
    by (rule sequenceE_if) (rule dynamic_close_of_date_eq[OF distinct_map_filter[OF assms(2)]])
  then show ?thesis
    by (simp add: get_dynamic_period_close_second_def bnd_def concat_map_groups[OF assms(1)])
qed

lemma rows_after_positional:
  assumes "index_increasing btdf" and "k < length btdf"
  shows "filter (\<lambda>c. idx (btdf ! k) < idx c) (filter (\<lambda>c. date c = d) btdf)
         = filter (\<lambda>c. date c = d) (drop (Suc k) btdf)"
proof -
  let ?r = "btdf ! k"
  have split: "btdf = take k btdf @ ?r # drop (Suc k) btdf"
    using assms(2) by (rule id_take_nth_drop)
  have "sorted_wrt (\<lambda>a b. idx a < idx b) (take k btdf @ ?r # drop (Suc k) btdf)"
    using assms(1) split unfolding index_increasing_def by simp
  then have before: "\<forall>c\<in>set (take k btdf). \<not> idx ?r < idx c"
    and after: "\<forall>c\<in>set (drop (Suc k) btdf). idx ?r < idx c"
    by (auto simp: sorted_wrt_append)
  have "filter (\<lambda>c. idx ?r < idx c) btdf
        = filter (\<lambda>c. idx ?r < idx c) (take k btdf) @ filter (\<lambda>c. idx ?r < idx c) [?r]
          @ filter (\<lambda>c. idx ?r < idx c) (drop (Suc k) btdf)"
    by (subst split) simp
  also have "\<dots> = drop (Suc k) btdf"
    using before after by (simp add: filter_empty_conv filter_id_conv)
  finally have "filter (\<lambda>c. idx ?r < idx c) btdf = drop (Suc k) btdf" .
  then have "filter (\<lambda>c. date c = d) (filter (\<lambda>c. idx ?r < idx c) btdf)
             = filter (\<lambda>c. date c = d) (drop (Suc k) btdf)" by simp
  then show ?thesis by (simp add: conj_commute)
qed

lemma dynamic_close_of_date_length:
  "dynamic_close_of_date L bti cfg = Inr b \<Longrightarrow> length b = length bti"
  by (auto simp: dynamic_close_of_date_def read_seconds_def bnd_def
           split: sum.splits if_splits dest: sequenceE_length)

lemma get_dynamic_length:
  assumes "get_dynamic_period_close_second L btdf cfg = Inr ms"
  shows "length ms = length btdf"
proof -
  from assms obtain blocks where
    b: "sequenceE (map (\<lambda>d. dynamic_close_of_date L (filter (\<lambda>r. date r = d) btdf) cfg)
                     (dates_of btdf)) = Inr blocks" and ms: "ms = concat blocks"
    by (auto simp: get_dynamic_period_close_second_def bnd_def split: sum.splits)
  have "map length blocks = map (\<lambda>d. length (filter (\<lambda>r. date r = d) btdf)) (dates_of btdf)"
    by (rule sequenceE_lengths[OF b]) (rule dynamic_close_of_date_length)
  then show ?thesis
    by (simp add: ms length_concat group_lengths_total)
qed

lemma ex_shuffled_dates: "dates_of ex_shuffled = [20131101]"
  by (simp add: dates_of_def ex_shuffled_def ex_defs)

lemma ex_shuffled_rows: "filter (\<lambda>r. date r = 20131101) ex_shuffled = ex_shuffled"
  by (simp add: ex_shuffled_def ex_defs)

lemma ex_shuffled_labels:
  "sequenceE (map (close_index_of ex_shuffled ex_config) (map idx ex_shuffled))
   = Inr [None, Some 5, None, None]"
  by (simp add: close_index_of_def dynamic_hold_def loc_def cond_def tick_change_def bnd_def
                fl_ge_def ex_shuffled_def ex_defs)

text \<open>
  C4, the claim as stated, fails. On a table of one date that is ordered by second and
  whose index labels are 5, 2, 9, 3, the position opened at second 20 (label 2) is closed
  at the row of second 10 (label 5), a row before the open row, although no row after the
  open row reaches a bound and the claim has the last row of the date: \<open>dynamic_hold\<close>
  compares index labels, not row positions. And with a pandas that raises \<open>KeyError\<close> on a
  null label the rows without a trade get no null: the function raises.
\<close>

theorem dynamic_close_label_order_counterexample:
  "table_ordered ex_shuffled \<and> distinct (map idx ex_shuffled) \<and>
   map second ex_shuffled = [10, 20, 30, 40] \<and>
   map idx ex_shuffled = [5, 2, 9, 3] \<and>
   map trade_col ex_shuffled = [0, 1, 0, 0] \<and>
   filter (breach ex_config (ex_shuffled ! 1)) (drop 2 ex_shuffled) = [] \<and>
   dynamic_hold ex_shuffled ex_config 2 = Inr 5 \<and>
   get_dynamic_period_close_second ex_lib ex_shuffled ex_config
     = Inr [None, Some 10, None, None] \<and>
   get_dynamic_period_close_second (ex_lib\<lparr>pd_missing_labels := (\<lambda>labels. False)\<rparr>)
     ex_shuffled ex_config = Inl KeyError"
proof -
  have a: "table_ordered ex_shuffled" "distinct (map idx ex_shuffled)"
    "map second ex_shuffled = [10, 20, 30, 40]" "map idx ex_shuffled = [5, 2, 9, 3]"
    "map trade_col ex_shuffled = [0, 1, 0, 0]"
    by (simp_all add: table_ordered_def ex_shuffled_def ex_defs)
  have b: "filter (breach ex_config (ex_shuffled ! 1)) (drop 2 ex_shuffled) = []"
    by (simp add: breach_def tick_change_def fl_ge_def ex_shuffled_def ex_defs)
  have h: "dynamic_hold ex_shuffled ex_config 2 = Inr 5"
    by (simp add: dynamic_hold_def loc_def cond_def tick_change_def bnd_def
                  fl_ge_def ex_shuffled_def ex_defs)
  have s: "second_at ex_shuffled None = None" "second_at ex_shuffled (Some 5) = Some 10"
    by (simp_all add: second_at_def ex_shuffled_def ex_defs)
  have p: "\<not> label_present ex_shuffled None"
    by (simp add: label_present_def)
  have g: "get_dynamic_period_close_second ex_lib ex_shuffled ex_config
             = Inr [None, Some 10, None, None]"
    unfolding get_dynamic_period_close_second_def ex_shuffled_dates list.map ex_shuffled_rows
              dynamic_close_of_date_def ex_shuffled_labels
    by (simp add: bnd_def read_seconds_def s ex_lib_def)
  have e: "get_dynamic_period_close_second (ex_lib\<lparr>pd_missing_labels := (\<lambda>labels. False)\<rparr>)
             ex_shuffled ex_config = Inl KeyError"
    unfolding get_dynamic_period_close_second_def ex_shuffled_dates list.map ex_shuffled_rows
              dynamic_close_of_date_def ex_shuffled_labels
    by (simp add: bnd_def read_seconds_def p)
  show ?thesis
    by (intro conjI a b h g e)
qed

text \<open>
  C4, as amended. On a table whose dates ascend and whose index labels are distinct, take
  a row \<open>k\<close>. \<open>dynamic_hold\<close> on the rows of the row's date returns the label of the close
  row: the first row of the table, of the same date, whose label is greater than the label
  of row \<open>k\<close> and whose tick move from the open mid is at least the upper bound or at most
  the lower bound, or the last row of the date when no row is. Whenever
  \<open>get_dynamic_period_close_second\<close> returns, it returns one entry per row, and the entry
  of row \<open>k\<close> is null if \<open>trade = 0\<close> and the second of the close row otherwise. The function
  returns when every row carries a trade or the pandas in use reads a null label as null;
  it raises \<open>KeyError\<close> when row \<open>k\<close> has \<open>trade = 0\<close> and the pandas in use raises on a null
  label. Where the index labels grow with the row position, the close row is the first
  row after row \<open>k\<close>, of the same date, that reaches a bound, or the last row of the date.
\<close>

theorem dynamic_close_first_greater_label:
  assumes "sorted (map date btdf)" and "distinct (map idx btdf)" and "k < length btdf"
  shows "(let r = btdf ! k;
              bti = filter (\<lambda>c. date c = date r) btdf;
              close_row = (case find (\<lambda>c. date c = date r \<and> idx r < idx c \<and> breach cfg r c) btdf of
                             Some c \<Rightarrow> c | None \<Rightarrow> last bti)
          in dynamic_hold bti cfg (idx r) = Inr (idx close_row) \<and>
             (\<forall>ms. get_dynamic_period_close_second L btdf cfg = Inr ms \<longrightarrow>
                length ms = length btdf \<and>
                ms ! k = (if trade_col r = 0 then None else Some (second close_row))) \<and>
             (list_all (\<lambda>c. trade_col c \<noteq> 0) btdf \<or> (\<forall>labels. pd_missing_labels L labels) \<longrightarrow>
                (\<exists>ms. get_dynamic_period_close_second L btdf cfg = Inr ms)) \<and>
             (trade_col r = 0 \<and> (\<forall>labels. \<not> pd_missing_labels L labels) \<longrightarrow>
                get_dynamic_period_close_second L btdf cfg = Inl KeyError) \<and>
             (index_increasing btdf \<longrightarrow>
                close_row = (case find (\<lambda>c. date c = date r \<and> breach cfg r c) (drop (Suc k) btdf) of
                               Some c \<Rightarrow> c | None \<Rightarrow> last bti)))"
proof -
  let ?r = "btdf ! k"
  let ?bti = "filter (\<lambda>c. date c = date ?r) btdf"
  let ?close = "case find (\<lambda>c. date c = date ?r \<and> idx ?r < idx c \<and> breach cfg ?r c) btdf of
                  Some c \<Rightarrow> c | None \<Rightarrow> last ?bti"
  let ?ok = "list_all (\<lambda>d. read_returns L cfg (filter (\<lambda>r. date r = d) btdf)) (dates_of btdf)"
  have rin: "?r \<in> set ?bti" and rin': "?r \<in> set btdf" using assms(3) by simp_all
  have dis: "distinct (map idx ?bti)" by (rule distinct_map_filter[OF assms(2)])
  have cr: "close_row_in cfg ?bti ?r = ?close" by (rule close_row_in_find)
  note eq = get_dynamic_eq[OF assms(1,2), of L cfg]
  have hold: "dynamic_hold ?bti cfg (idx ?r) = Inr (idx ?close)"
    using dynamic_hold_close_row[OF dis rin, of cfg] by (simp only: cr)
  have entries: "\<forall>ms. get_dynamic_period_close_second L btdf cfg = Inr ms \<longrightarrow>
                   length ms = length btdf \<and>
                   ms ! k = (if trade_col ?r = 0 then None else Some (second ?close))"
  proof (intro allI impI)
    fix ms assume g: "get_dynamic_period_close_second L btdf cfg = Inr ms"
    with eq have "ms = map (\<lambda>r. dynamic_close_of_row cfg (filter (\<lambda>c. date c = date r) btdf) r) btdf"
      by (simp split: if_splits)
    then have "ms ! k = dynamic_close_of_row cfg ?bti ?r" and "length ms = length btdf"
      using assms(3) by simp_all
    then show "length ms = length btdf \<and>
               ms ! k = (if trade_col ?r = 0 then None else Some (second ?close))"
      by (simp add: dynamic_close_of_row_def cr)
  qed
  have returns: "list_all (\<lambda>c. trade_col c \<noteq> 0) btdf \<or> (\<forall>labels. pd_missing_labels L labels) \<longrightarrow>
                   (\<exists>ms. get_dynamic_period_close_second L btdf cfg = Inr ms)"
  proof
    assume "list_all (\<lambda>c. trade_col c \<noteq> 0) btdf \<or> (\<forall>labels. pd_missing_labels L labels)"
    then have ?ok by (auto simp: list_all_iff read_returns_def)
    with eq show "\<exists>ms. get_dynamic_period_close_second L btdf cfg = Inr ms" by simp
  qed
  have raises: "trade_col ?r = 0 \<and> (\<forall>labels. \<not> pd_missing_labels L labels) \<longrightarrow>
                  get_dynamic_period_close_second L btdf cfg = Inl KeyError"
  proof
    assume h: "trade_col ?r = 0 \<and> (\<forall>labels. \<not> pd_missing_labels L labels)"
    with rin have "\<not> read_returns L cfg ?bti"
      unfolding read_returns_def list_all_iff by blast
    moreover have "date ?r \<in> set (dates_of btdf)"
      using rin' by (simp add: dates_of_def)
    ultimately have "\<not> ?ok" unfolding list_all_iff by blast
    with eq show "get_dynamic_period_close_second L btdf cfg = Inl KeyError" by simp
  qed
  have positional: "index_increasing btdf \<longrightarrow>
                      ?close = (case find (\<lambda>c. date c = date ?r \<and> breach cfg ?r c) (drop (Suc k) btdf) of
                                  Some c \<Rightarrow> c | None \<Rightarrow> last ?bti)"
  proof
    assume inc: "index_increasing btdf"
    have "close_row_in cfg ?bti ?r
          = (case find (\<lambda>c. date c = date ?r \<and> breach cfg ?r c) (drop (Suc k) btdf) of
               Some c \<Rightarrow> c | None \<Rightarrow> last ?bti)"
      unfolding close_row_in_def rows_after_positional[OF inc assms(3)] find_filter_conj ..
    then show "?close = (case find (\<lambda>c. date c = date ?r \<and> breach cfg ?r c) (drop (Suc k) btdf) of
                           Some c \<Rightarrow> c | None \<Rightarrow> last ?bti)"
      by (simp only: cr)
  qed
  show ?thesis
    unfolding Let_def by (intro conjI hold entries returns raises positional)
qed

theorem dynamic_close_first_greater_label_witness:
  "sorted (map date ex_trades) \<and> distinct (map idx ex_trades) \<and> index_increasing ex_trades \<and>
   (0::nat) < length ex_trades \<and> (2::nat) < length ex_trades \<and>
   trade_col (ex_trades ! 0) \<noteq> 0 \<and> trade_col (ex_trades ! 2) = 0 \<and>
   dynamic_hold (filter (\<lambda>c. date c = date (ex_trades ! 0)) ex_trades) ex_config
     (idx (ex_trades ! 0)) = Inr 1 \<and>
   (\<exists>ms. get_dynamic_period_close_second ex_lib ex_trades ex_config = Inr ms \<and>
         length ms = 4 \<and> ms ! 0 = Some 34230 \<and> ms ! 2 = None) \<and>
   get_dynamic_period_close_second (ex_lib\<lparr>pd_missing_labels := (\<lambda>labels. False)\<rparr>)
     ex_trades ex_config = Inl KeyError \<and>
   sorted (map date ex_shuffled) \<and> distinct (map idx ex_shuffled) \<and>
   \<not> index_increasing ex_shuffled \<and> (1::nat) < length ex_shuffled \<and>
   dynamic_hold (filter (\<lambda>c. date c = date (ex_shuffled ! 1)) ex_shuffled) ex_config
     (idx (ex_shuffled ! 1)) = Inr 5"
proof -
  have h1: "sorted (map date ex_trades)" and h2: "distinct (map idx ex_trades)"
    and h3: "index_increasing ex_trades"
    by (simp_all add: index_increasing_def ex_defs)
  have k0: "(0::nat) < length ex_trades" and k2: "(2::nat) < length ex_trades"
    by (simp_all add: ex_trades_def)
  have t: "trade_col (ex_trades ! 0) \<noteq> 0" "trade_col (ex_trades ! 2) = 0"
    by (simp_all add: ex_defs)
  have c0: "(case find (\<lambda>c. date c = date (ex_trades ! 0) \<and> idx (ex_trades ! 0) < idx c \<and>
                             breach ex_config (ex_trades ! 0) c) ex_trades of
               Some c \<Rightarrow> c | None \<Rightarrow> last (filter (\<lambda>c. date c = date (ex_trades ! 0)) ex_trades))
            = ex_trades ! 1"
    by (simp add: breach_def tick_change_def fl_ge_def ex_defs)
  have v: "idx (ex_trades ! 1) = 1" "second (ex_trades ! 1) = 34230"
    and v': "second (ex_trades ! Suc 0) = 34230"
    by (simp_all add: ex_defs)
  have m: "\<forall>labels. pd_missing_labels ex_lib labels"
    and m': "\<forall>labels. \<not> pd_missing_labels (ex_lib\<lparr>pd_missing_labels := (\<lambda>labels. False)\<rparr>) labels"
    by (simp_all add: ex_lib_def)
  note w0 = dynamic_close_first_greater_label[OF h1 h2 k0, of ex_config ex_lib, unfolded Let_def c0]
  note w2 = dynamic_close_first_greater_label[OF h1 h2 k2, of ex_config ex_lib, unfolded Let_def]
  note w2' = dynamic_close_first_greater_label[OF h1 h2 k2, of ex_config
               "ex_lib\<lparr>pd_missing_labels := (\<lambda>labels. False)\<rparr>", unfolded Let_def]
  have hold: "dynamic_hold (filter (\<lambda>c. date c = date (ex_trades ! 0)) ex_trades) ex_config
                (idx (ex_trades ! 0)) = Inr 1"
    using w0[THEN conjunct1] by (simp only: v)
  from w0[THEN conjunct2, THEN conjunct2, THEN conjunct1] m obtain ms where
    g: "get_dynamic_period_close_second ex_lib ex_trades ex_config = Inr ms" by blast
  from w0[THEN conjunct2, THEN conjunct1, THEN spec, THEN mp, OF g] t(1)
  have e0: "length ms = 4" "ms ! 0 = Some 34230"
    by (simp_all add: v') (simp add: ex_trades_def)
  from w2[THEN conjunct2, THEN conjunct1, THEN spec, THEN mp, OF g] t(2)
  have e2: "ms ! 2 = None" by simp
  have ex: "\<exists>ms. get_dynamic_period_close_second ex_lib ex_trades ex_config = Inr ms \<and>
         length ms = 4 \<and> ms ! 0 = Some 34230 \<and> ms ! 2 = None"
    by (intro exI[of _ ms] conjI g e0 e2)
  have err: "get_dynamic_period_close_second (ex_lib\<lparr>pd_missing_labels := (\<lambda>labels. False)\<rparr>)
               ex_trades ex_config = Inl KeyError"
    using w2'[THEN conjunct2, THEN conjunct2, THEN conjunct2, THEN conjunct1] t(2) m' by blast
  have s1: "sorted (map date ex_shuffled)" and s2: "distinct (map idx ex_shuffled)"
    and s3: "\<not> index_increasing ex_shuffled" and k1: "(1::nat) < length ex_shuffled"
    by (simp_all add: index_increasing_def ex_shuffled_def ex_defs)
  have c1: "(case find (\<lambda>c. date c = date (ex_shuffled ! 1) \<and> idx (ex_shuffled ! 1) < idx c \<and>
                             breach ex_config (ex_shuffled ! 1) c) ex_shuffled of
               Some c \<Rightarrow> c | None \<Rightarrow> last (filter (\<lambda>c. date c = date (ex_shuffled ! 1)) ex_shuffled))
            = ex_shuffled ! 0"
    by (simp add: breach_def tick_change_def fl_ge_def ex_shuffled_def ex_defs)
  have v5: "idx (ex_shuffled ! 0) = 5"
    by (simp add: ex_shuffled_def ex_defs)
  note w5 = dynamic_close_first_greater_label[OF s1 s2 k1, of ex_config ex_lib, unfolded Let_def c1]
  have hold5: "dynamic_hold (filter (\<lambda>c. date c = date (ex_shuffled ! 1)) ex_shuffled) ex_config
                 (idx (ex_shuffled ! 1)) = Inr 5"
    using w5[THEN conjunct1] by (simp only: v5)
  show ?thesis
    by (intro conjI h1 h2 h3 k0 k2 t hold ex err s1 s2 s3 k1 hold5)
qed

section \<open>Profit and loss: prices and arithmetic\<close>

lemma pnl_rows:
  assumes "pnl L btdf cfg = Inr out"
  shows "length out = length btdf"
    and "k < length out \<Longrightarrow>
           out ! k = pnl_of_row cfg btdf (btdf ! k) (matched_close_second (out ! k))"
    and "k < length out \<Longrightarrow> \<not> dynamic_unwinding cfg \<Longrightarrow>
           matched_close_second (out ! k) = Some (get_fixed_period_close_second btdf cfg ! k)"
    and "k < length out \<Longrightarrow> dynamic_unwinding cfg \<Longrightarrow>
           \<exists>ms. get_dynamic_period_close_second L btdf cfg = Inr ms \<and>
                 matched_close_second (out ! k) = ms ! k"
proof -
  from assms obtain matched where
    m: "(if dynamic_unwinding cfg then get_dynamic_period_close_second L btdf cfg
         else Inr (map Some (get_fixed_period_close_second btdf cfg))) = Inr matched"
    and out: "out = map (\<lambda>(r, m). pnl_of_row cfg btdf r m) (zip btdf matched)"
    by (auto simp: pnl_def bnd_def split: sum.splits)
  have len: "length matched = length btdf"
    using m get_dynamic_length[of L btdf cfg matched] get_fixed_length[of btdf cfg]
    by (auto split: if_splits)
  show "length out = length btdf" by (simp add: out len)
  have mc: "matched_close_second (pnl_of_row cfg btdf r x) = x" for r x
    by (simp add: pnl_of_row_def Let_def tr_row.defs pnl_row.defs)
  have nth: "out ! k = pnl_of_row cfg btdf (btdf ! k) (matched ! k)" if "k < length out"
    using that by (simp add: out len)
  show "out ! k = pnl_of_row cfg btdf (btdf ! k) (matched_close_second (out ! k))"
    if "k < length out" using nth[OF that] by (simp add: mc)
  show "matched_close_second (out ! k) = Some (get_fixed_period_close_second btdf cfg ! k)"
    if "k < length out" "\<not> dynamic_unwinding cfg"
    using nth[OF that(1)] m that by (auto simp: mc out len get_fixed_length)
  show "\<exists>ms. get_dynamic_period_close_second L btdf cfg = Inr ms \<and>
             matched_close_second (out ! k) = ms ! k"
    if "k < length out" "dynamic_unwinding cfg"
    using nth[OF that(1)] m that by (auto simp: mc)
qed

lemma pnl_of_row_fields:
  "tr_row.truncate (pnl_of_row cfg btdf r m) = r"
  "trade_col (pnl_of_row cfg btdf r m) = trade_col r"
  "open_price (pnl_of_row cfg btdf r m) =
     (if use_mid cfg then mid r
      else of_bool (trade_col r > 0) * s1 r + of_bool (trade_col r < 0) * b1 r)"
  "close_b1 (pnl_of_row cfg btdf r m) = joined b1 (close_tick btdf (date r) m)"
  "close_s1 (pnl_of_row cfg btdf r m) = joined s1 (close_tick btdf (date r) m)"
  "close_mid (pnl_of_row cfg btdf r m) = joined mid (close_tick btdf (date r) m)"
  "close_price (pnl_of_row cfg btdf r m) =
     (if use_mid cfg then joined mid (close_tick btdf (date r) m)
      else fl_add (fl_mul (Fin (of_bool (trade_col r > 0))) (joined b1 (close_tick btdf (date r) m)))
                  (fl_mul (Fin (of_bool (trade_col r < 0))) (joined s1 (close_tick btdf (date r) m))))"
  "pnl_col (pnl_of_row cfg btdf r m) =
     fl_mul (Fin (of_int (trade_col r)))
       (fl_sub (close_price (pnl_of_row cfg btdf r m)) (Fin (open_price (pnl_of_row cfg btdf r m))))"
  "transaction_fee_col (pnl_of_row cfg btdf r m) =
     fl_mul (fl_mul (Fin (transaction_fee cfg)) (Fin (of_int \<bar>trade_col r\<bar>)))
       (fl_add (Fin (open_price (pnl_of_row cfg btdf r m))) (close_price (pnl_of_row cfg btdf r m)))"
  "net_pnl (pnl_of_row cfg btdf r m) =
     fl_sub (pnl_col (pnl_of_row cfg btdf r m)) (transaction_fee_col (pnl_of_row cfg btdf r m))"
  by (simp_all add: pnl_of_row_def Let_def tr_row.defs pnl_row.defs)

lemma ex_pnl_returns:
  "\<exists>out. pnl ex_lib ex_trades (ex_config\<lparr>use_mid := u\<rparr>) = Inr out \<and> length out = 4"
  by (simp add: pnl_def bnd_def ex_config_def get_fixed_length) (simp add: ex_trades_def)

lemma close_tick_exists:
  "c \<in> set btdf \<Longrightarrow> date c = d \<Longrightarrow> \<exists>t. close_tick btdf d (Some (second c)) = Some t"
  by (cases "close_tick btdf d (Some (second c))") (auto simp: close_tick_def find_None_iff)

lemma close_price_finite:
  "close_tick btdf (date r) m = Some t \<Longrightarrow> \<exists>v. close_price (pnl_of_row cfg btdf r m) = Fin v"
  by (simp add: pnl_of_row_fields joined_def)

lemma fixed_close_is_tick:
  assumes "table_ordered btdf" and "k < length btdf"
  shows "\<exists>c\<in>set btdf. date c = date (btdf ! k) \<and>
            get_fixed_period_close_second btdf cfg ! k = second c"
proof -
  let ?bti = "filter (\<lambda>c. date c = date (btdf ! k)) btdf"
  let ?P = "\<lambda>c. second (btdf ! k) + holding_period cfg \<le> second c"
  have "btdf ! k \<in> set ?bti" using assms(2) by simp
  then have ne: "?bti \<noteq> []" by (metis empty_iff list.set(1))
  have m: "get_fixed_period_close_second btdf cfg ! k =
             (case find ?P ?bti of Some c \<Rightarrow> second c | None \<Rightarrow> second (last ?bti))"
    using assms(2) by (simp add: get_fixed_map[OF assms(1)])
  show ?thesis
  proof (cases "find ?P ?bti")
    case None
    have "last ?bti \<in> set ?bti" using ne by (rule last_in_set)
    with None m show ?thesis by auto
  next
    case (Some c)
    then have "c \<in> set ?bti" by (rule find_Some_set)
    with Some m show ?thesis by auto
  qed
qed

lemma pnl_close_price_finite:
  assumes "pnl L btdf cfg = Inr out" and "k < length out"
    and "if dynamic_unwinding cfg
         then sorted (map date btdf) \<and> index_increasing btdf \<and> trade_col (btdf ! k) \<noteq> 0
         else table_ordered btdf"
  shows "\<exists>v. close_price (out ! k) = Fin v"
proof -
  have kb: "k < length btdf" using pnl_rows(1)[OF assms(1)] assms(2) by simp
  have row: "out ! k = pnl_of_row cfg btdf (btdf ! k) (matched_close_second (out ! k))"
    by (rule pnl_rows(2)[OF assms(1,2)])
  have "\<exists>c\<in>set btdf. date c = date (btdf ! k) \<and> matched_close_second (out ! k) = Some (second c)"
  proof (cases "dynamic_unwinding cfg")
    case False
    with assms(3) have ord: "table_ordered btdf" by simp
    from fixed_close_is_tick[OF ord kb, of cfg] pnl_rows(3)[OF assms(1,2) False]
    show ?thesis by auto
  next
    case True
    with assms(3) have s: "sorted (map date btdf)" and i: "index_increasing btdf"
      and t: "trade_col (btdf ! k) \<noteq> 0" by simp_all
    let ?bti = "filter (\<lambda>c. date c = date (btdf ! k)) btdf"
    have "btdf ! k \<in> set ?bti" using kb by simp
    then have "close_row_in cfg ?bti (btdf ! k) \<in> set ?bti" by (rule close_row_in_set)
    moreover from pnl_rows(4)[OF assms(1,2) True]
        get_dynamic_eq[OF s index_increasing_distinct[OF i], of L cfg] kb t
    have "matched_close_second (out ! k) = Some (second (close_row_in cfg ?bti (btdf ! k)))"
      by (auto simp: dynamic_close_of_row_def split: if_splits)
    ultimately show ?thesis by auto
  qed
  then obtain c where c: "c \<in> set btdf" "date c = date (btdf ! k)"
    "matched_close_second (out ! k) = Some (second c)" by blast
  from close_tick_exists[OF c(1,2)] obtain t where
    "close_tick btdf (date (btdf ! k)) (matched_close_second (out ! k)) = Some t"
    by (auto simp: c(3))
  from close_price_finite[OF this, of cfg] row show ?thesis by simp
qed

text \<open>
  C6. In the table that \<open>pnl\<close> returns, which has one row per row of its input, every row
  has \<open>pnl = trade * (close_price - open_price)\<close>,
  \<open>transaction_fee = config['transaction_fee'] * |trade| * (open_price + close_price)\<close> and
  \<open>net_pnl = pnl - transaction_fee\<close>, in float arithmetic with NaN; where the close price
  is a finite number these are the three real numbers of the formulas. The close price is
  finite for every row under the fixed-horizon policy on a table ordered by date and
  second, and for every traded row under the dynamic policy on a table whose dates ascend
  and whose index labels grow.
\<close>

theorem pnl_arithmetic:
  assumes "pnl L btdf cfg = Inr out" and "k < length out"
  shows "length out = length btdf \<and>
         pnl_col (out ! k) =
           fl_mul (Fin (of_int (trade_col (out ! k))))
                  (fl_sub (close_price (out ! k)) (Fin (open_price (out ! k)))) \<and>
         transaction_fee_col (out ! k) =
           fl_mul (fl_mul (Fin (transaction_fee cfg)) (Fin (of_int \<bar>trade_col (out ! k)\<bar>)))
                  (fl_add (Fin (open_price (out ! k))) (close_price (out ! k))) \<and>
         net_pnl (out ! k) = fl_sub (pnl_col (out ! k)) (transaction_fee_col (out ! k)) \<and>
         (\<forall>c. close_price (out ! k) = Fin c \<longrightarrow>
            pnl_col (out ! k) = Fin (of_int (trade_col (out ! k)) * (c - open_price (out ! k))) \<and>
            transaction_fee_col (out ! k) =
              Fin (transaction_fee cfg * of_int \<bar>trade_col (out ! k)\<bar> * (open_price (out ! k) + c)) \<and>
            net_pnl (out ! k) =
              Fin (of_int (trade_col (out ! k)) * (c - open_price (out ! k))
                   - transaction_fee cfg * of_int \<bar>trade_col (out ! k)\<bar> * (open_price (out ! k) + c))) \<and>
         ((if dynamic_unwinding cfg
           then sorted (map date btdf) \<and> index_increasing btdf \<and> trade_col (btdf ! k) \<noteq> 0
           else table_ordered btdf) \<longrightarrow>
            (\<exists>c. close_price (out ! k) = Fin c))"
proof -
  obtain m where row: "out ! k = pnl_of_row cfg btdf (btdf ! k) m"
    using pnl_rows(2)[OF assms] by blast
  have id: "pnl_col (out ! k) =
           fl_mul (Fin (of_int (trade_col (out ! k))))
                  (fl_sub (close_price (out ! k)) (Fin (open_price (out ! k))))"
    "transaction_fee_col (out ! k) =
           fl_mul (fl_mul (Fin (transaction_fee cfg)) (Fin (of_int \<bar>trade_col (out ! k)\<bar>)))
                  (fl_add (Fin (open_price (out ! k))) (close_price (out ! k)))"
    "net_pnl (out ! k) = fl_sub (pnl_col (out ! k)) (transaction_fee_col (out ! k))"
    unfolding row
    by (simp_all only: pnl_of_row_fields(2) pnl_of_row_fields(8) pnl_of_row_fields(9)
                       pnl_of_row_fields(10))
  have fin: "(if dynamic_unwinding cfg
           then sorted (map date btdf) \<and> index_increasing btdf \<and> trade_col (btdf ! k) \<noteq> 0
           else table_ordered btdf) \<longrightarrow>
            (\<exists>c. close_price (out ! k) = Fin c)"
    using pnl_close_price_finite[OF assms] by blast
  have reals: "\<forall>c. close_price (out ! k) = Fin c \<longrightarrow>
            pnl_col (out ! k) = Fin (of_int (trade_col (out ! k)) * (c - open_price (out ! k))) \<and>
            transaction_fee_col (out ! k) =
              Fin (transaction_fee cfg * of_int \<bar>trade_col (out ! k)\<bar> * (open_price (out ! k) + c)) \<and>
            net_pnl (out ! k) =
              Fin (of_int (trade_col (out ! k)) * (c - open_price (out ! k))
                   - transaction_fee cfg * of_int \<bar>trade_col (out ! k)\<bar> * (open_price (out ! k) + c))"
    using id by (auto simp: fl_sub_def)
  show ?thesis
    by (intro conjI pnl_rows(1)[OF assms(1)] id reals fin)
qed

theorem pnl_arithmetic_witness:
  "\<not> dynamic_unwinding ex_config \<and> table_ordered ex_trades \<and>
   (\<exists>out. pnl ex_lib ex_trades ex_config = Inr out \<and> (0::nat) < length out \<and>
         trade_col (out ! 0) = 1 \<and> close_price (out ! 0) = Fin 130 \<and>
         pnl_col (out ! 0) = Fin 20 \<and> transaction_fee_col (out ! 0) = Fin (3 / 125) \<and>
         net_pnl (out ! 0) = Fin (20 - 3 / 125))"
proof -
  from ex_pnl_returns[of False] obtain out where
    o: "pnl ex_lib ex_trades ex_config = Inr out" and l: "length out = 4"
    by (auto simp: ex_config_def)
  have k: "(0::nat) < length out" using l by simp
  have row: "out ! 0 = pnl_of_row ex_config ex_trades (ex_trades ! 0) (Some 34250)"
    using pnl_rows(2)[OF o k] pnl_rows(3)[OF o k] ex_fixed_close[of False]
    by (simp add: ex_config_def)
  have t: "trade_col (out ! 0) = 1" "open_price (out ! 0) = 110" "close_price (out ! 0) = Fin 130"
    unfolding row by (simp_all add: pnl_of_row_fields close_tick_def joined_def ex_defs)
  have fee: "transaction_fee ex_config = 1 / 10000"
    by (simp add: ex_config_def)
  have d: "\<not> dynamic_unwinding ex_config" by (simp add: ex_config_def)
  from pnl_arithmetic[OF o k] show ?thesis
    using o k t fee d ex_trades_ordered by (auto simp add: fl_sub_def)
qed

text \<open>
  C7. Row \<open>k\<close> of the table that \<open>pnl\<close> returns extends row \<open>k\<close> of its input, and its
  matched close second is the one the chosen policy computes for the row. The close tick
  is the tick of the row's date at the matched close second. With \<open>use_mid\<close> false, a row
  with \<open>trade = +1\<close> opens at its \<open>s1\<close> and closes at the \<open>b1\<close> of the close tick, a row with
  \<open>trade = -1\<close> opens at its \<open>b1\<close> and closes at the \<open>s1\<close> of the close tick; with
  \<open>use_mid\<close> true a row opens at its \<open>mid\<close> and closes at the \<open>mid\<close> of the close tick.
  The close price is NaN when the date has no tick at the matched close second.
\<close>

theorem pnl_prices:
  assumes "pnl L btdf cfg = Inr out" and "k < length out"
  shows "tr_row.truncate (out ! k) = btdf ! k \<and>
         (\<not> dynamic_unwinding cfg \<longrightarrow>
            matched_close_second (out ! k) = Some (get_fixed_period_close_second btdf cfg ! k)) \<and>
         (dynamic_unwinding cfg \<longrightarrow>
            (\<exists>ms. get_dynamic_period_close_second L btdf cfg = Inr ms \<and>
                  matched_close_second (out ! k) = ms ! k)) \<and>
         (\<not> use_mid cfg \<and> trade_col (btdf ! k) = 1 \<longrightarrow>
            open_price (out ! k) = s1 (btdf ! k) \<and>
            close_price (out ! k) =
              joined b1 (close_tick btdf (date (btdf ! k)) (matched_close_second (out ! k)))) \<and>
         (\<not> use_mid cfg \<and> trade_col (btdf ! k) = - 1 \<longrightarrow>
            open_price (out ! k) = b1 (btdf ! k) \<and>
            close_price (out ! k) =
              joined s1 (close_tick btdf (date (btdf ! k)) (matched_close_second (out ! k)))) \<and>
         (use_mid cfg \<longrightarrow>
            open_price (out ! k) = mid (btdf ! k) \<and>
            close_price (out ! k) =
              joined mid (close_tick btdf (date (btdf ! k)) (matched_close_second (out ! k))))"
proof -
  let ?m = "matched_close_second (out ! k)"
  have row: "out ! k = pnl_of_row cfg btdf (btdf ! k) ?m"
    by (rule pnl_rows(2)[OF assms])
  have tr: "tr_row.truncate (out ! k) = btdf ! k"
    by (subst row) (rule pnl_of_row_fields(1))
  have op: "open_price (out ! k) =
     (if use_mid cfg then mid (btdf ! k)
      else of_bool (trade_col (btdf ! k) > 0) * s1 (btdf ! k)
           + of_bool (trade_col (btdf ! k) < 0) * b1 (btdf ! k))"
    by (subst row) (rule pnl_of_row_fields(3))
  have cl: "close_price (out ! k) =
     (if use_mid cfg then joined mid (close_tick btdf (date (btdf ! k)) ?m)
      else fl_add (fl_mul (Fin (of_bool (trade_col (btdf ! k) > 0)))
                          (joined b1 (close_tick btdf (date (btdf ! k)) ?m)))
                  (fl_mul (Fin (of_bool (trade_col (btdf ! k) < 0)))
                          (joined s1 (close_tick btdf (date (btdf ! k)) ?m))))"
    by (subst row) (rule pnl_of_row_fields(7))
  have j: "fl_add (fl_mul (Fin 1) (joined f c)) (fl_mul (Fin 0) (joined g c)) = joined f c"
          "fl_add (fl_mul (Fin 0) (joined g c)) (fl_mul (Fin 1) (joined f c)) = joined f c"
    for f g :: "tr_row \<Rightarrow> real" and c
    by (cases c; simp add: joined_def)+
  show ?thesis
    using tr pnl_rows(3)[OF assms] pnl_rows(4)[OF assms]
    by (auto simp: op cl j)
qed

theorem pnl_prices_witness:
  "(\<exists>out. pnl ex_lib ex_trades ex_config = Inr out \<and> (1::nat) < length out \<and>
          \<not> use_mid ex_config \<and> trade_col (ex_trades ! 0) = 1 \<and> trade_col (ex_trades ! 1) = - 1 \<and>
          open_price (out ! 0) = 110 \<and> close_price (out ! 0) = Fin 130 \<and>
          open_price (out ! 1) = 120 \<and> close_price (out ! 1) = Fin 140) \<and>
   (\<exists>out. pnl ex_lib ex_trades (ex_config\<lparr>use_mid := True\<rparr>) = Inr out \<and> (0::nat) < length out \<and>
          open_price (out ! 0) = 105 \<and> close_price (out ! 0) = Fin 135)"
proof -
  from ex_pnl_returns[of False] obtain out where
    o: "pnl ex_lib ex_trades ex_config = Inr out" and l: "length out = 4"
    by (auto simp: ex_config_def)
  have k0: "(0::nat) < length out" and k1: "(1::nat) < length out" using l by simp_all
  from ex_pnl_returns[of True] obtain out' where
    o': "pnl ex_lib ex_trades (ex_config\<lparr>use_mid := True\<rparr>) = Inr out'" and l': "length out' = 4"
    by auto
  have k0': "(0::nat) < length out'" using l' by simp
  have fx: "get_fixed_period_close_second ex_trades ex_config = [34250, 34250, 34250, 60000]"
    using ex_fixed_close[of False] by (simp add: ex_config_def)
  have a: "\<not> use_mid ex_config" "\<not> dynamic_unwinding ex_config"
    "\<not> dynamic_unwinding (ex_config\<lparr>use_mid := True\<rparr>)"
    by (simp_all add: ex_config_def)
  have t: "trade_col (ex_trades ! 0) = 1" "trade_col (ex_trades ! Suc 0) = - 1"
    by (simp_all add: ex_defs)
  have c0: "joined b1 (close_tick ex_trades (date (ex_trades ! 0)) (Some 34250)) = Fin 130"
    and c1: "joined s1 (close_tick ex_trades (date (ex_trades ! Suc 0)) (Some 34250)) = Fin 140"
    and c2: "joined mid (close_tick ex_trades (date (ex_trades ! 0)) (Some 34250)) = Fin 135"
    and s: "s1 (ex_trades ! 0) = 110" "b1 (ex_trades ! Suc 0) = 120" "mid (ex_trades ! 0) = 105"
    by (simp_all add: close_tick_def joined_def ex_defs)
  from pnl_prices[OF o k0] pnl_prices[OF o k1] pnl_prices[OF o' k0']
  show ?thesis
    using o o' k0 k1 k0' a t
    by (simp add: fx ex_fixed_close c0 c1 c2 s)
qed

section \<open>Summary: the unguarded rates and the two correlations\<close>

lemma py_div_Inr: "b \<noteq> 0 \<Longrightarrow> py_div a b = Inr (of_int a / of_int b)"
  by (simp add: py_div_def)

lemma summary_no_trades:
  assumes "filter (\<lambda>r. trade_col r \<noteq> 0) btdf = []"
  shows "summary L btdf cfg = Inl ZeroDivisionError"
  using assms by (simp add: summary_def Let_def py_div_def bnd_def count_where_def)

lemma summary_some_trades:
  assumes "filter (\<lambda>r. trade_col r \<noteq> 0) btdf \<noteq> []"
  shows "\<exists>res. summary L btdf cfg = Inr res \<and>
           n_trades res = int (length (filter (\<lambda>r. trade_col r \<noteq> 0) btdf)) \<and>
           n_trading_days res = int (length (remdups (map date (filter (\<lambda>r. trade_col r \<noteq> 0) btdf)))) \<and>
           n_trades_per_day res = safe_divide L (Fin (of_int (n_trades res))) (Fin (of_int (n_trading_days res))) \<and>
           avg_pnl_per_day res = safe_divide L (total_pnl res) (Fin (of_int (n_trading_days res))) \<and>
           avg_net_pnl_per_day res = safe_divide L (total_net_pnl res) (Fin (of_int (n_trading_days res))) \<and>
           winning_rate res =
             of_int (count_where (\<lambda>r. fl_gt (pnl_col r) (Fin 0)) (filter (\<lambda>r. trade_col r \<noteq> 0) btdf))
               / of_int (n_trades res) \<and>
           losing_rate res =
             of_int (count_where (\<lambda>r. fl_lt (pnl_col r) (Fin 0)) (filter (\<lambda>r. trade_col r \<noteq> 0) btdf))
               / of_int (n_trades res) \<and>
           net_winning_rate res =
             of_int (count_where (\<lambda>r. fl_gt (net_pnl r) (Fin 0)) (filter (\<lambda>r. trade_col r \<noteq> 0) btdf))
               / of_int (n_trades res) \<and>
           net_losing_rate res =
             of_int (count_where (\<lambda>r. fl_lt (net_pnl r) (Fin 0)) (filter (\<lambda>r. trade_col r \<noteq> 0) btdf))
               / of_int (n_trades res) \<and>
           corr_alpha_pnl res =
             np_corrcoef L (map alpha (filter (\<lambda>r. trade_col r \<noteq> 0) btdf))
                           (map pnl_col (filter (\<lambda>r. trade_col r \<noteq> 0) btdf)) \<and>
           corr_alpha_net_pnl res =
             np_corrcoef L (map alpha (filter (\<lambda>r. trade_col r \<noteq> 0) btdf))
                           (map pnl_col (filter (\<lambda>r. trade_col r \<noteq> 0) btdf))"
  using assms by (simp add: summary_def Let_def py_div_def bnd_def)

lemma ex_pnl_trades: "map trade_col ex_pnl = [1, - 1, 0, 0]"
  by (simp add: ex_pnl_def pnl_of_row_fields ex_defs)

text \<open>
  C9. Whenever \<open>summary\<close> returns a record, its entry \<open>corr_alpha_net_pnl\<close> equals its entry
  \<open>corr_alpha_pnl\<close>, and both are \<open>np.corrcoef\<close> of the columns \<open>alpha\<close> and \<open>pnl\<close> (the
  raw profit, not \<open>net_pnl\<close>) of the rows with a nonzero trade.
\<close>


theorem summary_corr_fields_equal:
  assumes "summary L btdf cfg = Inr res"
  shows "corr_alpha_net_pnl res = corr_alpha_pnl res \<and>
         corr_alpha_pnl res =
           np_corrcoef L (map alpha (filter (\<lambda>r. trade_col r \<noteq> 0) btdf))
                         (map pnl_col (filter (\<lambda>r. trade_col r \<noteq> 0) btdf))"
proof (cases "filter (\<lambda>r. trade_col r \<noteq> 0) btdf = []")
  case True
  from summary_no_trades[OF True, of L cfg] assms show ?thesis by simp
next
  case False
  from summary_some_trades[OF False, of L cfg] assms show ?thesis by auto
qed

theorem summary_corr_fields_equal_witness:
  "\<exists>res. summary ex_lib ex_pnl ex_config = Inr res \<and>
         corr_alpha_net_pnl res = corr_alpha_pnl res"
proof -
  have "filter (\<lambda>r. trade_col r \<noteq> 0) ex_pnl \<noteq> []"
    by (simp add: ex_pnl_def pnl_of_row_fields ex_defs)
  from summary_some_trades[OF this, of ex_lib ex_config] obtain res where
    r: "summary ex_lib ex_pnl ex_config = Inr res" by blast
  from summary_corr_fields_equal[OF r] r show ?thesis by blast
qed

text \<open>
  C10. \<open>summary\<close> returns a record exactly when the table has a row with \<open>trade \<noteq> 0\<close>; on
  a table without such a row it raises \<open>ZeroDivisionError\<close>. In a record it returns,
  \<open>n_trades_per_day\<close> and the two averages per day are results of \<open>safe_divide\<close>, while the
  four win and loss rates are plain quotients by the number of traded rows.
\<close>

theorem summary_needs_a_trade:
  "((\<exists>res. summary L btdf cfg = Inr res) \<longleftrightarrow> (\<exists>r\<in>set btdf. trade_col r \<noteq> 0)) \<and>
   ((\<forall>r\<in>set btdf. trade_col r = 0) \<longrightarrow> summary L btdf cfg = Inl ZeroDivisionError) \<and>
   (\<forall>res. summary L btdf cfg = Inr res \<longrightarrow>
      n_trades res = int (length (filter (\<lambda>r. trade_col r \<noteq> 0) btdf)) \<and>
      n_trades_per_day res =
        safe_divide L (Fin (of_int (n_trades res))) (Fin (of_int (n_trading_days res))) \<and>
      avg_pnl_per_day res = safe_divide L (total_pnl res) (Fin (of_int (n_trading_days res))) \<and>
      avg_net_pnl_per_day res =
        safe_divide L (total_net_pnl res) (Fin (of_int (n_trading_days res))) \<and>
      winning_rate res =
        of_int (count_where (\<lambda>r. fl_gt (pnl_col r) (Fin 0)) (filter (\<lambda>r. trade_col r \<noteq> 0) btdf))
          / of_int (n_trades res) \<and>
      losing_rate res =
        of_int (count_where (\<lambda>r. fl_lt (pnl_col r) (Fin 0)) (filter (\<lambda>r. trade_col r \<noteq> 0) btdf))
          / of_int (n_trades res) \<and>
      net_winning_rate res =
        of_int (count_where (\<lambda>r. fl_gt (net_pnl r) (Fin 0)) (filter (\<lambda>r. trade_col r \<noteq> 0) btdf))
          / of_int (n_trades res) \<and>
      net_losing_rate res =
        of_int (count_where (\<lambda>r. fl_lt (net_pnl r) (Fin 0)) (filter (\<lambda>r. trade_col r \<noteq> 0) btdf))
          / of_int (n_trades res))"
proof (cases "filter (\<lambda>r. trade_col r \<noteq> 0) btdf = []")
  case True
  then have "\<forall>r\<in>set btdf. trade_col r = 0" by (simp add: filter_empty_conv)
  with summary_no_trades[OF True, of L cfg] show ?thesis by simp
next
  case False
  then have "\<exists>r\<in>set btdf. trade_col r \<noteq> 0" by (simp add: filter_empty_conv)
  with summary_some_trades[OF False, of L cfg] show ?thesis by auto
qed

theorem summary_needs_a_trade_witness:
  "map trade_col ex_pnl = [1, - 1, 0, 0] \<and> (\<exists>res. summary ex_lib ex_pnl ex_config = Inr res) \<and>
   map trade_col ex_pnl_idle = [0, 0] \<and>
   summary ex_lib ex_pnl_idle ex_config = Inl ZeroDivisionError"
proof -
  have i: "map trade_col ex_pnl_idle = [0, 0]"
    by (simp add: ex_pnl_idle_def ex_pnl_def pnl_of_row_fields ex_defs)
  have a: "\<exists>r\<in>set ex_pnl. trade_col r \<noteq> 0"
  proof -
    have "1 \<in> set (map trade_col ex_pnl)" by (simp add: ex_pnl_trades)
    then obtain x where "x \<in> set ex_pnl" and "trade_col x = 1" by auto
    then have "x \<in> set ex_pnl \<and> trade_col x \<noteq> 0" by simp
    then show ?thesis by blast
  qed
  have b: "\<forall>r\<in>set ex_pnl_idle. trade_col r = 0"
    by (simp add: ex_pnl_idle_def)
  from summary_needs_a_trade[of ex_lib ex_pnl ex_config] a
  have 1: "\<exists>res. summary ex_lib ex_pnl ex_config = Inr res" by blast
  from summary_needs_a_trade[of ex_lib ex_pnl_idle ex_config] b
  have 2: "summary ex_lib ex_pnl_idle ex_config = Inl ZeroDivisionError" by blast
  show ?thesis by (intro conjI ex_pnl_trades 1 i 2)
qed

section \<open>Model fitting: the statistics\<close>

lemma LinearRegression_fit_Inr:
  "LinearRegression_fit L x y = Inr regr \<Longrightarrow>
     x \<noteq> [] \<and> length x = length y \<and> fit_intercept regr = False \<and> intercept regr = 0 \<and>
     coef regr = sk_lstsq L x y"
  by (auto simp: LinearRegression_fit_def split: if_splits)

lemma predict_no_intercept:
  "intercept regr = 0 \<Longrightarrow> predict regr x = map (\<lambda>row. dot row (coef regr)) x"
  by (simp add: predict_def)

lemma fit_data_shape:
  assumes "fit_data L train features cfg = Inr (x, y)"
  shows "\<forall>row\<in>set x. length row = length features"
    and "length x = length (dropna (features @ [get_moving_column_name L (response_column cfg) 0
                                                  (holding_period cfg)]) train)"
  using assms
  by (auto simp: fit_data_def Let_def bnd_def values_of_def split: sum.splits)

text \<open>
  C8. When \<open>fit\<close> returns, with \<open>x\<close> and \<open>y\<close> the arrays it regresses, \<open>n\<close> the length of
  \<open>y\<close> and \<open>p\<close> the number of selected features (every row of \<open>x\<close> has \<open>p\<close> entries): the
  regression has no intercept (the flag is false, the intercept 0, the prediction the
  product of \<open>x\<close> and the coefficients, which are the least-squares solution for \<open>x\<close> and
  \<open>y\<close>); \<open>mse\<close> is the residual sum of squares divided by \<open>n - p\<close>; the t-statistic of a
  coefficient is the coefficient divided by the square root of \<open>mse\<close> times the diagonal
  entry of the inverse of the product of the transpose of \<open>x\<close> with \<open>x\<close>; \<open>df_1 = p - 1\<close> and
  \<open>df_2 = n - p\<close>.
\<close>

theorem fit_statistics:
  assumes "fit L train features cfg = Inr (regr, st)"
  shows "\<exists>x y xtx_inv.
           fit_data L train features cfg = Inr (x, y) \<and>
           (\<forall>row\<in>set x. length row = length features) \<and>
           length x = length y \<and>
           np_linalg_inv L (mat_mul (transpose x) x) = Some xtx_inv \<and>
           fit_intercept regr = False \<and> intercept regr = 0 \<and>
           coef regr = sk_lstsq L x y \<and> beta st = coef regr \<and>
           predict regr x = map (\<lambda>row. dot row (coef regr)) x \<and>
           mse st = fl_div (Fin (sum_list (map (\<lambda>(a, b). (a - b)\<^sup>2) (zip (predict regr x) y))))
                           (Fin (real (length y) - real (length features))) \<and>
           tstat st = map (\<lambda>(b, d). fl_div (Fin b) (fl_sqrt (fl_mul (mse st) (Fin d))))
                          (zip (coef regr) (diagonal xtx_inv)) \<and>
           df_1 st = int (length features) - 1 \<and>
           df_2 st = int (length y) - int (length features)"
proof -
  from assms obtain x y where d: "fit_data L train features cfg = Inr (x, y)"
    by (auto simp: fit_def bnd_def split: sum.splits)
  from assms d obtain r where r: "LinearRegression_fit L x y = Inr r"
    by (auto simp: fit_def bnd_def split: sum.splits)
  note rr = LinearRegression_fit_Inr[OF r]
  from assms d r obtain m where m: "np_linalg_inv L (mat_mul (transpose x) x) = Some m"
    by (auto simp: fit_def bnd_def linalg_inv_def Let_def split: sum.splits option.splits)
  from assms d r m rr have regr: "regr = r"
    by (simp add: fit_def bnd_def linalg_inv_def Let_def)
  have st: "st = \<lparr>rsq = sk_r2_score L y (predict r x),
                   beta = coef r,
                   tstat = map (\<lambda>(b, s). fl_div (Fin b) s)
                             (zip (coef r) (map (\<lambda>d. fl_sqrt (fl_mul
                                (fl_div (Fin (sum_list (map (\<lambda>(a, b). (a - b)\<^sup>2) (zip (predict r x) y))))
                                        (Fin (of_int (int (length y) - int (length features)))))
                                (Fin d))) (diagonal m))),
                   mse = fl_div (Fin (sum_list (map (\<lambda>(a, b). (a - b)\<^sup>2) (zip (predict r x) y))))
                                (Fin (of_int (int (length y) - int (length features)))),
                   df_1 = int (length features) - 1,
                   df_2 = int (length y) - int (length features)\<rparr>"
    using assms d r m rr
    by (auto simp add: fit_def bnd_def linalg_inv_def Let_def
             simp del: fl_div.simps fl_mul.simps fl_sqrt.simps)
  have ts: "map (\<lambda>(b, s). fl_div (Fin b) s) (zip bs (map f ds))
            = map (\<lambda>(b, d). fl_div (Fin b) (f d)) (zip bs ds)" for bs ds and f :: "real \<Rightarrow> fl"
    by (simp add: zip_map2 case_prod_unfold)
  show ?thesis
    using d fit_data_shape(1)[OF d] rr m predict_no_intercept[of r x]
    by (simp add: regr st ts del: fl_div.simps fl_mul.simps fl_sqrt.simps)
qed

lemma ex_train_rows:
  "ex_train =
     [ex_tick 0 20131101 34200 100 110 [''ofi'' \<mapsto> 1, ''tick_move'' \<mapsto> 2],
      ex_tick 1 20131101 34260 110 120 [''ofi'' \<mapsto> 2, ''tick_move'' \<mapsto> 4],
      ex_tick 2 20131104 34200 120 130 [''ofi'' \<mapsto> 3, ''tick_move'' \<mapsto> 7],
      ex_tick 3 20131104 34260 130 140 [''ofi'' \<mapsto> - 1, ''tick_move'' \<mapsto> - 2]]"
  by (simp add: ex_train_def ex_px_def ex_tick_def)

lemma ex_fit_data:
  "fit_data ex_lib ex_train [''ofi''] ex_config = Inr ([[1], [2], [3], [- 1]], [2, 4, 7, - 2])"
  by (simp add: ex_train_rows fit_data_def Let_def dropna_def column_def List.map_filter_def
                values_of_def bnd_def lookup_def ex_lib_def ex_config_def ex_tick_def
                upt_rec[of 0] upt_rec[of "Suc 0"] upt_rec[of 2] upt_rec[of 3] upt_rec[of 4])

lemma ex_xtx: "mat_mul (transpose [[1], [2], [3], [- 1 :: real]]) [[1], [2], [3], [- 1]] = [[15]]"
  by (simp add: mat_mul_def dot_def)

lemma ex_regr:
  "LinearRegression_fit ex_lib [[1], [2], [3], [- 1]] [2, 4, 7, - 2]
     = Inr \<lparr>fit_intercept = False, coef = [11 / 5], intercept = 0\<rparr>"
  by (simp add: LinearRegression_fit_def ex_lib_def dot_def)

lemma ex_inv:
  "linalg_inv ex_lib (mat_mul (transpose [[1], [2], [3], [- 1]]) [[1], [2], [3], [- 1]])
     = Inr [[1 / 15]]"
  by (subst ex_xtx) (simp add: linalg_inv_def ex_lib_def)

lemma ex_fit_returns:
  "\<exists>regr st. fit ex_lib ex_train [''ofi''] ex_config = Inr (regr, st) \<and> coef regr = [11 / 5]"
  unfolding fit_def ex_fit_data bnd_def sum.case prod.case ex_regr ex_inv
  by (simp add: Let_def del: fl_div.simps fl_mul.simps fl_sqrt.simps)

theorem fit_statistics_witness:
  "\<exists>regr st. fit ex_lib ex_train [''ofi''] ex_config = Inr (regr, st) \<and>
             \<not> fit_intercept regr \<and> coef regr = [11 / 5] \<and> beta st = [11 / 5] \<and>
             df_1 st = 0 \<and> df_2 st = 3 \<and> mse st = Fin ((2 / 5) / 3)"
proof -
  from ex_fit_returns obtain regr st where
    f: "fit ex_lib ex_train [''ofi''] ex_config = Inr (regr, st)" and c: "coef regr = [11 / 5]"
    by blast
  from fit_statistics[OF f] show ?thesis
    using f c by (auto simp add: ex_fit_data dot_def power2_eq_square)
qed

section \<open>Walk-forward backtest: training windows and failures\<close>

lemma py_get_nth: "0 \<le> i \<Longrightarrow> i < int (length xs) \<Longrightarrow> py_get xs i = Inr (xs ! nat i)"
  by (simp add: py_get_def)

lemma dates_of_sorted: "sorted (dates_of px)" and dates_of_distinct: "distinct (dates_of px)"
  and dates_of_set: "set (dates_of px) = date ` set px"
  by (simp_all add: dates_of_def)

lemma dates_of_less:
  assumes "j < k" and "k < length (dates_of px)"
  shows "dates_of px ! j < dates_of px ! k"
proof -
  have "dates_of px ! j \<le> dates_of px ! k"
    using assms by (intro sorted_nth_mono[OF dates_of_sorted]) auto
  moreover have "dates_of px ! j \<noteq> dates_of px ! k"
    using assms dates_of_distinct[of px] by (simp add: nth_eq_iff_index_eq)
  ultimately show ?thesis by simp
qed

lemma dates_of_le_iff:
  assumes "j < length (dates_of px)" and "k < length (dates_of px)"
  shows "dates_of px ! j \<le> dates_of px ! k \<longleftrightarrow> j \<le> k"
    and "dates_of px ! j < dates_of px ! k \<longleftrightarrow> j < k"
proof -
  show "dates_of px ! j < dates_of px ! k \<longleftrightarrow> j < k"
    using assms dates_of_less[of j k px] dates_of_less[of k j px]
    by (cases j k rule: linorder_cases) auto
  then show "dates_of px ! j \<le> dates_of px ! k \<longleftrightarrow> j \<le> k"
    using assms dates_of_less[of k j px] by (cases j k rule: linorder_cases) auto
qed

lemma window_dates:
  assumes "lo \<le> k" and "k < length (dates_of px)"
  shows "date ` set (filter (\<lambda>r. date r \<ge> dates_of px ! lo \<and> date r < dates_of px ! k) px)
         = set (take (k - lo) (drop lo (dates_of px)))"
proof (intro equalityI subsetI)
  fix d assume "d \<in> date ` set (filter (\<lambda>r. date r \<ge> dates_of px ! lo \<and> date r < dates_of px ! k) px)"
  then obtain r where r: "r \<in> set px" "d = date r" "dates_of px ! lo \<le> d" "d < dates_of px ! k"
    by auto
  then have "d \<in> set (dates_of px)" by (simp add: dates_of_set)
  then obtain j where j: "j < length (dates_of px)" "dates_of px ! j = d"
    by (auto simp: in_set_conv_nth)
  have lo: "lo < length (dates_of px)" using assms by simp
  from r(3,4) j have "lo \<le> j" "j < k"
    using dates_of_le_iff[OF lo j(1)] dates_of_le_iff[OF j(1) assms(2)] by auto
  then have "take (k - lo) (drop lo (dates_of px)) ! (j - lo) = d"
    using j assms by simp
  moreover have "j - lo < length (take (k - lo) (drop lo (dates_of px)))"
    using \<open>lo \<le> j\<close> \<open>j < k\<close> assms by simp
  ultimately show "d \<in> set (take (k - lo) (drop lo (dates_of px)))"
    by (metis nth_mem)
next
  fix d assume "d \<in> set (take (k - lo) (drop lo (dates_of px)))"
  then obtain m where m: "m < k - lo" "m < length (dates_of px) - lo"
      "d = take (k - lo) (drop lo (dates_of px)) ! m"
    by (auto simp: in_set_conv_nth)
  then have d: "d = dates_of px ! (lo + m)" by simp
  have jl: "lo + m < length (dates_of px)" using m by simp
  have lo: "lo < length (dates_of px)" using assms by simp
  have "d \<in> set (dates_of px)" using d jl by simp
  then obtain r where r: "r \<in> set px" "date r = d" by (auto simp: dates_of_set)
  have "dates_of px ! lo \<le> d" "d < dates_of px ! k"
    unfolding d using dates_of_le_iff[OF lo jl] dates_of_le_iff[OF jl assms(2)] m by auto
  with r show "d \<in> date ` set (filter (\<lambda>r. date r \<ge> dates_of px ! lo \<and> date r < dates_of px ! k) px)"
    by force
qed

lemma window_rows:
  assumes "lo \<le> k" and "k < length (dates_of px)"
  shows "filter (\<lambda>r. date r \<ge> dates_of px ! lo \<and> date r < dates_of px ! k) px
         = filter (\<lambda>r. date r \<in> set (take (k - lo) (drop lo (dates_of px)))) px"
proof (rule filter_cong[OF refl])
  fix r assume r: "r \<in> set px"
  have "date r \<in> date ` set (filter (\<lambda>r. date r \<ge> dates_of px ! lo \<and> date r < dates_of px ! k) px)
        \<longleftrightarrow> dates_of px ! lo \<le> date r \<and> date r < dates_of px ! k"
    using r by auto
  then show "(dates_of px ! lo \<le> date r \<and> date r < dates_of px ! k)
             = (date r \<in> set (take (k - lo) (drop lo (dates_of px))))"
    unfolding window_dates[OF assms] by simp
qed

lemma training_snapshot_window:
  assumes "0 \<le> training_period cfg" and "training_period cfg \<le> i"
    and "i < int (length (dates_of px))"
  shows "\<exists>train. training_snapshot px (dates_of px) cfg i (dates_of px ! nat i) = Inr train \<and>
           evaluate_day L px cfg (dates_of px) i
             = bnd (select_feature L train cfg) (\<lambda>features.
               bnd (fit L train features cfg) (\<lambda>(model, stats).
                 predict_day L (filter (\<lambda>r. date r = dates_of px ! nat i) px) cfg (dates_of px ! nat i)
                       features model stats)) \<and>
           train = filter (\<lambda>r. date r \<in> set (take (nat (training_period cfg))
                                   (drop (nat (i - training_period cfg)) (dates_of px)))) px \<and>
           (\<forall>r\<in>set train. date r < dates_of px ! nat i) \<and>
           date ` set train
             = set (take (nat (training_period cfg))
                         (drop (nat (i - training_period cfg)) (dates_of px))) \<and>
           card (date ` set train) = nat (training_period cfg)"
proof -
  let ?ds = "dates_of px"
  let ?lo = "nat (i - training_period cfg)"
  let ?train = "filter (\<lambda>r. date r \<ge> ?ds ! ?lo \<and> date r < ?ds ! nat i) px"
  have i0: "0 \<le> i" using assms by simp
  have g1: "py_get ?ds i = Inr (?ds ! nat i)"
    by (rule py_get_nth[OF i0 assms(3)])
  have g2: "py_get ?ds (i - training_period cfg) = Inr (?ds ! ?lo)"
    using assms by (intro py_get_nth) auto
  have snap: "training_snapshot px ?ds cfg i (?ds ! nat i) = Inr ?train"
    by (simp add: training_snapshot_def g2 bnd_def)
  have ev: "evaluate_day L px cfg ?ds i
            = bnd (select_feature L ?train cfg) (\<lambda>features.
              bnd (fit L ?train features cfg) (\<lambda>(model, stats).
                predict_day L (filter (\<lambda>r. date r = ?ds ! nat i) px) cfg (?ds ! nat i)
                       features model stats))"
    by (simp add: evaluate_day_def g1 snap bnd_def)
  have lo: "?lo \<le> nat i" and k: "nat i < length ?ds" and diff: "nat i - ?lo = nat (training_period cfg)"
    using assms by auto
  have win: "date ` set ?train = set (take (nat (training_period cfg)) (drop ?lo ?ds))"
    using window_dates[OF lo k] by (simp add: diff)
  have rows: "?train = filter (\<lambda>r. date r \<in> set (take (nat (training_period cfg)) (drop ?lo ?ds))) px"
    using window_rows[OF lo k] by (simp add: diff)
  have before: "\<forall>r\<in>set ?train. date r < ?ds ! nat i" by simp
  have "distinct (take (nat (training_period cfg)) (drop ?lo ?ds))"
    by (intro distinct_take distinct_drop dates_of_distinct)
  then have "card (set (take (nat (training_period cfg)) (drop ?lo ?ds)))
             = length (take (nat (training_period cfg)) (drop ?lo ?ds))"
    by (rule distinct_card)
  also have "\<dots> = nat (training_period cfg)" using assms by auto
  finally have card: "card (date ` set ?train) = nat (training_period cfg)"
    unfolding win .
  show ?thesis
    by (intro exI[of _ ?train] conjI snap ev rows before win card)
qed

lemma evaluate_day_result:
  assumes "0 \<le> training_period cfg" and "training_period cfg \<le> i"
    and "i < int (length (dates_of px))"
    and "evaluate_day L px cfg (dates_of px) i = Inr (px_i, st)"
  shows "\<exists>train features model stats.
           training_snapshot px (dates_of px) cfg i (dates_of px ! nat i) = Inr train \<and>
           select_feature L train cfg = Inr features \<and>
           fit L train features cfg = Inr (model, stats) \<and>
           predict_day L (filter (\<lambda>r. date r = dates_of px ! nat i) px) cfg (dates_of px ! nat i)
                       features model stats = Inr (px_i, st)"
proof -
  from training_snapshot_window[OF assms(1-3), of L] obtain train where
    snap: "training_snapshot px (dates_of px) cfg i (dates_of px ! nat i) = Inr train" and
    ev: "evaluate_day L px cfg (dates_of px) i
           = bnd (select_feature L train cfg) (\<lambda>features.
             bnd (fit L train features cfg) (\<lambda>(model, stats).
               predict_day L (filter (\<lambda>r. date r = dates_of px ! nat i) px) cfg (dates_of px ! nat i)
                       features model stats))"
    by blast
  from assms(4)[unfolded ev] obtain features where
    sel: "select_feature L train cfg = Inr features" and
    r1: "bnd (fit L train features cfg) (\<lambda>(model, stats).
           predict_day L (filter (\<lambda>r. date r = dates_of px ! nat i) px) cfg (dates_of px ! nat i)
                       features model stats) = Inr (px_i, st)"
    by (cases "select_feature L train cfg") (simp_all add: bnd_def)
  from r1 obtain model stats where
    ft: "fit L train features cfg = Inr (model, stats)" and
    pr: "predict_day L (filter (\<lambda>r. date r = dates_of px ! nat i) px) cfg (dates_of px ! nat i)
                       features model stats = Inr (px_i, st)"
    by (cases "fit L train features cfg") (auto simp: bnd_def)
  from snap sel ft pr show ?thesis by blast
qed

lemma model_predict_length:
  "model_predict model X = Inr a \<Longrightarrow> length a = length X \<and> X \<noteq> []"
  by (auto simp: model_predict_def predict_def bnd_def
           split: if_splits sum.splits dest: sequenceE_length)

lemma truncate_extend: "tick.truncate (tick.extend (r :: tick) (bt_row.fields a)) = r"
  by (simp add: tick.defs bt_row.defs)

lemma predict_day_result:
  assumes "predict_day L day cfg d features model stats = Inr (px_i, st)"
  shows "fs_date st = d" and "stats.truncate st = stats"
    and "map date px_i = map date day" and "px_i \<noteq> []"
    and "map (\<lambda>r. (tick.truncate r)\<lparr>cols := Map.empty\<rparr>) px_i
         = map (\<lambda>r. r\<lparr>cols := Map.empty\<rparr>) day"
proof -
  let ?y = "get_moving_column_name L (response_column cfg) 0 (holding_period cfg)"
  let ?rows = "map (\<lambda>r. r\<lparr>cols := cols r |` set (features @ [?y])\<rparr>) day"
  let ?filled = "map (\<lambda>f. fillna_median L (map (\<lambda>r. cols r f) ?rows)) features"
  let ?X = "map (\<lambda>k. map (\<lambda>col. col ! k) ?filled) [0..<length ?rows]"
  have lx: "length ?X = length ?rows" by simp
  from assms obtain a where
    mp: "model_predict model ?X = Inr a" and
    out: "px_i = map (\<lambda>(r, a). tick.extend r (bt_row.fields a)) (zip ?rows a)" and
    st: "\<exists>u v. st = stats.extend stats (fit_row.fields d u v)"
    unfolding predict_day_def Let_def
    by (cases "model_predict model ?X") (auto simp add: bnd_def simp del: map_map map_append)
  from model_predict_length[OF mp] lx have la: "length a = length ?rows" and ne: "?rows \<noteq> []"
    by auto
  show "fs_date st = d" and "stats.truncate st = stats"
    using st by (auto simp: stats.defs fit_row.defs)
  have tr: "map tick.truncate px_i = ?rows"
  proof -
    have "map tick.truncate px_i = map fst (zip ?rows a)"
      unfolding out map_map by (rule map_cong[OF refl]) (auto simp: truncate_extend)
    also have "\<dots> = ?rows" using la by (simp only: map_fst_zip)
    finally show ?thesis .
  qed
  from tr ne show "px_i \<noteq> []" by auto
  have "map date px_i = map date (map tick.truncate px_i)"
    by (simp add: tick.defs)
  also have "\<dots> = map date day"
    unfolding tr by simp
  finally show "map date px_i = map date day" .
  have "map (\<lambda>r. (tick.truncate r)\<lparr>cols := Map.empty\<rparr>) px_i
        = map (\<lambda>r. r\<lparr>cols := Map.empty\<rparr>) (map tick.truncate px_i)"
    by simp
  also have "\<dots> = map (\<lambda>r. r\<lparr>cols := Map.empty\<rparr>) day"
    unfolding tr by simp
  finally show "map (\<lambda>r. (tick.truncate r)\<lparr>cols := Map.empty\<rparr>) px_i
                = map (\<lambda>r. r\<lparr>cols := Map.empty\<rparr>) day" .
qed

lemma backtest_loop_results:
  "backtest_loop L px cfg dates ixs (b0, f0) = Inr (btdf, fs) \<Longrightarrow>
   \<exists>res. map (evaluate_day L px cfg dates) ixs = map Inr res \<and>
         btdf = b0 @ concat (map fst res) \<and> fs = f0 @ map snd res"
proof (induction ixs arbitrary: b0 f0)
  case Nil
  then show ?case by simp
next
  case (Cons i ixs)
  from Cons.prems obtain px_i st where
    ev: "evaluate_day L px cfg dates i = Inr (px_i, st)" and
    rest: "backtest_loop L px cfg dates ixs (b0 @ px_i, f0 @ [st]) = Inr (btdf, fs)"
    by (auto simp: bnd_def split: sum.splits)
  from Cons.IH[OF rest] obtain res where
    res: "map (evaluate_day L px cfg dates) ixs = map Inr res"
      "btdf = (b0 @ px_i) @ concat (map fst res)" "fs = (f0 @ [st]) @ map snd res"
    by blast
  show ?case
    by (rule exI[of _ "(px_i, st) # res"]) (simp add: ev res)
qed

lemma backtest_loop_fails:
  "i \<in> set ixs \<Longrightarrow> evaluate_day L px cfg dates i = Inl e \<Longrightarrow>
   \<exists>e'. backtest_loop L px cfg dates ixs acc = Inl e' \<and> (i = hd ixs \<longrightarrow> e' = e)"
proof (induction ixs arbitrary: acc)
  case Nil
  then show ?case by simp
next
  case (Cons j ixs)
  obtain b0 f0 where acc: "acc = (b0, f0)" by (cases acc)
  show ?case
  proof (cases "evaluate_day L px cfg dates j")
    case (Inl e0)
    with Cons.prems show ?thesis by (auto simp: acc bnd_def)
  next
    case (Inr res)
    with Cons.prems have ne: "i \<noteq> j" and "i \<in> set ixs" by auto
    obtain x1 x2 where res: "res = (x1, x2)" by (cases res)
    from Cons.IH[OF \<open>i \<in> set ixs\<close> Cons.prems(2), of "(b0 @ x1, f0 @ [x2])"]
    obtain e' where "backtest_loop L px cfg dates ixs (b0 @ x1, f0 @ [x2]) = Inl e'" by blast
    with Inr ne show ?thesis
      by (simp add: acc bnd_def res)
  qed
qed

lemma filter_concat_block:
  "length bs = length ks \<Longrightarrow> distinct ks \<Longrightarrow>
   (\<And>m r. m < length bs \<Longrightarrow> r \<in> set (bs ! m) \<Longrightarrow> f r = ks ! m) \<Longrightarrow> j < length bs \<Longrightarrow>
   filter (\<lambda>r. f r = ks ! j) (concat bs) = bs ! j"
proof (induction bs ks arbitrary: j rule: list_induct2)
  case Nil
  then show ?case by simp
next
  case (Cons b bs k ks)
  have hd: "f r = k" if "r \<in> set b" for r
    using Cons.prems(2)[of 0 r] that by simp
  have tl: "f r = ks ! m" if "m < length bs" "r \<in> set (bs ! m)" for m r
    using Cons.prems(2)[of "Suc m" r] that by simp
  have other: "f r \<noteq> k" if "r \<in> set (concat bs)" for r
  proof -
    from that obtain b' where "b' \<in> set bs" "r \<in> set b'" by auto
    then obtain m where m: "m < length bs" "r \<in> set (bs ! m)"
      by (auto simp: in_set_conv_nth)
    from tl[OF m] m(1) Cons.hyps Cons.prems(1) show ?thesis by auto
  qed
  show ?case
  proof (cases j)
    case 0
    have "filter (\<lambda>r. f r = k) b = b" using hd by (simp add: filter_id_conv)
    moreover have "filter (\<lambda>r. f r = k) (concat bs) = []"
      using other by (simp add: filter_empty_conv)
    ultimately show ?thesis using 0 by simp
  next
    case (Suc j')
    then have j': "j' < length bs" using Cons.prems(3) by simp
    have "ks ! j' \<noteq> k" using j' Cons.hyps Cons.prems(1) by auto
    then have "filter (\<lambda>r. f r = ks ! j') b = []"
      using hd by (auto simp: filter_empty_conv)
    moreover have "filter (\<lambda>r. f r = ks ! j') (concat bs) = bs ! j'"
      using Cons.prems(1) by (intro Cons.IH tl j') auto
    ultimately show ?thesis using Suc by simp
  qed
qed

lemma upto_nth_shift: "j < nat (n - a) \<Longrightarrow> [a .. n - 1] ! j = a + int j"
  by simp

lemma backtest_results:
  assumes "0 \<le> training_period cfg" and "backtest L px cfg = Inr (btdf, fs)"
  shows "\<exists>res. length res = length (drop (nat (training_period cfg)) (dates_of px)) \<and>
           (\<forall>j<length res. evaluate_day L px cfg (dates_of px) (training_period cfg + int j)
                             = Inr (res ! j)) \<and>
           btdf = concat (map fst res) \<and> fs = map snd res"
proof -
  let ?ixs = "[training_period cfg .. int (length (dates_of px)) - 1]"
  from backtest_loop_results[OF assms(2)[unfolded backtest_def]] obtain res where
    m: "map (evaluate_day L px cfg (dates_of px)) ?ixs = map Inr res" and
    o: "btdf = concat (map fst res)" "fs = map snd res"
    by auto
  have len: "length res = length ?ixs"
    using arg_cong[OF m, of length] by simp
  have len': "length ?ixs = length (drop (nat (training_period cfg)) (dates_of px))"
    using assms(1) by auto
  have "evaluate_day L px cfg (dates_of px) (training_period cfg + int j) = Inr (res ! j)"
    if "j < length res" for j
  proof -
    have "map (evaluate_day L px cfg (dates_of px)) ?ixs ! j = map Inr res ! j"
      by (simp only: m)
    moreover have "?ixs ! j = training_period cfg + int j"
      using that len by simp
    ultimately show ?thesis using that len by simp
  qed
  then show ?thesis
    using len len' o by auto
qed

lemma backtest_output:
  assumes "0 \<le> training_period cfg" and "backtest L px cfg = Inr (btdf, fs)"
  shows "map fs_date fs = drop (nat (training_period cfg)) (dates_of px)"
    and "map (\<lambda>r. (tick.truncate r)\<lparr>cols := Map.empty\<rparr>) btdf
         = map (\<lambda>r. r\<lparr>cols := Map.empty\<rparr>)
             (concat (map (\<lambda>d. filter (\<lambda>r. date r = d) px)
                          (drop (nat (training_period cfg)) (dates_of px))))"
    and "training_period cfg \<le> i \<Longrightarrow> i < int (length (dates_of px)) \<Longrightarrow>
         \<exists>train features model stats.
           training_snapshot px (dates_of px) cfg i (dates_of px ! nat i) = Inr train \<and>
           select_feature L train cfg = Inr features \<and>
           fit L train features cfg = Inr (model, stats) \<and>
           predict_day L (filter (\<lambda>r. date r = dates_of px ! nat i) px) cfg (dates_of px ! nat i)
                       features model stats
             = Inr (filter (\<lambda>r. date r = dates_of px ! nat i) btdf,
                    fs ! nat (i - training_period cfg))"
    and "drop (nat (training_period cfg)) (dates_of px) = [d] \<Longrightarrow>
         btdf \<noteq> [] \<and> (\<forall>r\<in>set btdf. date r = d)"
proof -
  let ?tp = "training_period cfg"
  let ?ds = "dates_of px"
  let ?ks = "drop (nat ?tp) ?ds"
  from backtest_results[OF assms] obtain res where
    len: "length res = length ?ks" and
    ev: "\<And>j. j < length res \<Longrightarrow> evaluate_day L px cfg ?ds (?tp + int j) = Inr (res ! j)" and
    o: "btdf = concat (map fst res)" "fs = map snd res"
    by blast
  have rng: "?tp \<le> ?tp + int j" "?tp + int j < int (length ?ds)"
       "?ds ! nat (?tp + int j) = ?ks ! j" if "j < length res" for j
    using that len assms(1) by (auto simp: nat_add_distrib)
  have day: "\<exists>train features model stats.
           training_snapshot px ?ds cfg (?tp + int j) (?ks ! j) = Inr train \<and>
           select_feature L train cfg = Inr features \<and>
           fit L train features cfg = Inr (model, stats) \<and>
           predict_day L (filter (\<lambda>r. date r = ?ks ! j) px) cfg (?ks ! j) features model stats
             = Inr (fst (res ! j), snd (res ! j))"
    if "j < length res" for j
    using evaluate_day_result[OF assms(1) rng(1,2)[OF that], of L "fst (res ! j)" "snd (res ! j)"]
          ev[OF that]
    by (simp add: rng(3)[OF that])
  have pr: "fs_date (snd (res ! j)) = ?ks ! j"
       "\<forall>r\<in>set (fst (res ! j)). date r = ?ks ! j"
       "fst (res ! j) \<noteq> []"
       "map (\<lambda>r. (tick.truncate r)\<lparr>cols := Map.empty\<rparr>) (fst (res ! j))
        = map (\<lambda>r. r\<lparr>cols := Map.empty\<rparr>) (filter (\<lambda>r. date r = ?ks ! j) px)"
    if "j < length res" for j
  proof -
    from day[OF that] obtain features model stats where
      p: "predict_day L (filter (\<lambda>r. date r = ?ks ! j) px) cfg (?ks ! j) features model stats
            = Inr (fst (res ! j), snd (res ! j))"
      by blast
    show "fs_date (snd (res ! j)) = ?ks ! j"
       "fst (res ! j) \<noteq> []"
       "map (\<lambda>r. (tick.truncate r)\<lparr>cols := Map.empty\<rparr>) (fst (res ! j))
        = map (\<lambda>r. r\<lparr>cols := Map.empty\<rparr>) (filter (\<lambda>r. date r = ?ks ! j) px)"
      by (rule predict_day_result[OF p])+
    have "set (map date (fst (res ! j))) \<subseteq> {?ks ! j}"
      unfolding predict_day_result(3)[OF p] by auto
    then show "\<forall>r\<in>set (fst (res ! j)). date r = ?ks ! j" by auto
  qed
  show "map fs_date fs = ?ks"
    unfolding o by (rule nth_equalityI) (simp_all add: len pr(1))
  have "map (map (\<lambda>r. (tick.truncate r)\<lparr>cols := Map.empty\<rparr>)) (map fst res)
        = map (map (\<lambda>r. r\<lparr>cols := Map.empty\<rparr>)) (map (\<lambda>d. filter (\<lambda>r. date r = d) px) ?ks)"
    by (rule nth_equalityI) (simp_all add: len pr(4))
  then show "map (\<lambda>r. (tick.truncate r)\<lparr>cols := Map.empty\<rparr>) btdf
         = map (\<lambda>r. r\<lparr>cols := Map.empty\<rparr>) (concat (map (\<lambda>d. filter (\<lambda>r. date r = d) px) ?ks))"
    unfolding o by (simp only: map_concat)
  have blk: "filter (\<lambda>r. date r = ?ks ! j) btdf = fst (res ! j)" if "j < length res" for j
  proof -
    have "filter (\<lambda>r. date r = ?ks ! j) (concat (map fst res)) = map fst res ! j"
    proof (rule filter_concat_block)
      show "length (map fst res) = length ?ks" by (simp add: len)
      show "distinct ?ks" by (intro distinct_drop dates_of_distinct)
      show "j < length (map fst res)" using that by simp
      fix m r assume "m < length (map fst res)" "r \<in> set (map fst res ! m)"
      then show "date r = ?ks ! m" using pr(2)[of m] by simp
    qed
    then show ?thesis using that by (simp add: o)
  qed
  show "\<exists>train features model stats.
           training_snapshot px ?ds cfg i (?ds ! nat i) = Inr train \<and>
           select_feature L train cfg = Inr features \<and>
           fit L train features cfg = Inr (model, stats) \<and>
           predict_day L (filter (\<lambda>r. date r = ?ds ! nat i) px) cfg (?ds ! nat i)
                       features model stats
             = Inr (filter (\<lambda>r. date r = ?ds ! nat i) btdf, fs ! nat (i - ?tp))"
    if i: "?tp \<le> i" "i < int (length ?ds)"
  proof -
    let ?j = "nat (i - ?tp)"
    have j: "?j < length res" and ij: "?tp + int ?j = i"
      using i assms(1) len by auto
    have fsj: "fs ! ?j = snd (res ! ?j)" using j by (simp add: o)
    from day[OF j] show ?thesis
      unfolding ij blk[OF j, symmetric] fsj rng(3)[OF j, symmetric] by simp
  qed
  show "btdf \<noteq> [] \<and> (\<forall>r\<in>set btdf. date r = d)" if one: "?ks = [d]"
  proof -
    from one len obtain x where res: "res = [x]"
      by (cases res) auto
    have "btdf = fst (res ! 0)" by (simp add: o res)
    with pr(2,3)[of 0] one res show ?thesis by simp
  qed
qed

lemma fit_fails:
  assumes "fit_data L train features cfg = Inr (x, y)"
    and "x = [] \<or> np_linalg_inv L (mat_mul (transpose x) x) = None"
  shows "fit L train features cfg = Inl ValueError \<or> fit L train features cfg = Inl LinAlgError"
  using assms
  by (auto simp: fit_def bnd_def LinearRegression_fit_def linalg_inv_def Let_def)

lemma ex_px_dates: "dates_of ex_px = [20131101, 20131104, 20131105]"
  by (simp add: dates_of_def ex_px_def ex_tick_def)

lemma ex_gaps_dates: "dates_of ex_px_gaps = [20131101, 20131104, 20131105]"
  by (simp add: dates_of_def ex_px_gaps_def ex_tick_def)

lemma ex_snapshot:
  "training_snapshot ex_px (dates_of ex_px) ex_config 2 20131105 = Inr ex_train"
  unfolding ex_px_dates
  by (simp add: training_snapshot_def py_get_def bnd_def ex_config_def
                ex_train_def ex_px_def ex_tick_def)

lemma ex_select: "select_feature ex_lib ex_train ex_config = Inr [''ofi'']"
  by (simp add: ex_train_rows select_feature_def select_one_def lookup_def bnd_def Let_def
                ex_lib_def ex_config_def ex_corr_def ex_ss_def ex_argmax_def fl_of_def
                List.map_filter_def ex_tick_def power2_eq_square)

lemma ex_fit_model:
  "\<exists>st. fit ex_lib ex_train [''ofi''] ex_config
          = Inr (\<lparr>fit_intercept = False, coef = [11 / 5], intercept = 0\<rparr>, st) \<and>
        beta st = [11 / 5]"
  unfolding fit_def ex_fit_data bnd_def sum.case prod.case ex_regr ex_inv
  by (simp add: Let_def del: fl_div.simps fl_mul.simps fl_sqrt.simps)

lemma ex_predict:
  "\<exists>px_i st'. predict_day ex_lib (filter (\<lambda>r. date r = 20131105) ex_px) ex_config 20131105 [''ofi'']
                 \<lparr>fit_intercept = False, coef = [11 / 5], intercept = 0\<rparr> st = Inr (px_i, st') \<and>
     map idx px_i = [4, 5] \<and> map date px_i = [20131105, 20131105] \<and>
     map alpha px_i = [22 / 5, 22 / 5] \<and> fs_date st' = 20131105 \<and> beta st' = beta st"
  unfolding predict_day_def
  by (simp add: Let_def ex_px_def ex_tick_def fillna_median_def fl_of_def ex_lib_def
                ex_config_def ex_median_def ex_finite_def List.map_filter_def
                model_predict_def predict_def dot_def bnd_def restrict_map_def
                tick.defs bt_row.defs stats.defs fit_row.defs
                upt_rec[of 0] upt_rec[of "Suc 0"] upt_rec[of 2]
           del: fl_div.simps fl_mul.simps fl_sqrt.simps)

lemma ex_backtest_returns:
  "\<exists>btdf fs. backtest ex_lib ex_px ex_config = Inr (btdf, fs) \<and>
     map idx btdf = [4, 5] \<and> map date btdf = [20131105, 20131105] \<and>
     map alpha btdf = [22 / 5, 22 / 5] \<and> map beta fs = [[11 / 5]]"
proof -
  from ex_fit_model obtain st where
    f: "fit ex_lib ex_train [''ofi''] ex_config
          = Inr (\<lparr>fit_intercept = False, coef = [11 / 5], intercept = 0\<rparr>, st)"
    and bs: "beta st = [11 / 5]" by blast
  from ex_predict[of st] obtain px_i st' where
    p: "predict_day ex_lib (filter (\<lambda>r. date r = 20131105) ex_px) ex_config 20131105 [''ofi'']
          \<lparr>fit_intercept = False, coef = [11 / 5], intercept = 0\<rparr> st = Inr (px_i, st')"
    and v: "map idx px_i = [4, 5]" "map date px_i = [20131105, 20131105]"
      "map alpha px_i = [22 / 5, 22 / 5]" "beta st' = beta st"
    by (elim exE conjE)
  have ev: "evaluate_day ex_lib ex_px ex_config [20131101, 20131104, 20131105] 2 = Inr (px_i, st')"
    using ex_snapshot
    by (simp add: evaluate_day_def py_get_def bnd_def ex_px_dates ex_select f p)
  have ixs: "[training_period ex_config .. int (length [20131101, 20131104, 20131105 :: int]) - 1] = [2]"
    by (simp add: ex_config_def upto_rec1)
  have "backtest ex_lib ex_px ex_config = Inr (px_i, [st'])"
    unfolding backtest_def ex_px_dates ixs by (simp add: ev bnd_def)
  then show ?thesis using v bs by simp
qed

text \<open>
  C1. With a training period that is not negative: on every evaluation day, that is every
  index \<open>i\<close> from \<open>training_period\<close> up to the last date, the pass of the loop of \<open>backtest\<close>
  is \<open>select_feature\<close> and \<open>fit\<close> applied to the training snapshot, followed by the
  prediction of the day with the fitted model; the snapshot holds the rows of the
  \<open>training_period\<close> dates that precede the day and no other row, so every row of it has a
  date before the day. When \<open>backtest\<close> returns, the dates of the fitting-stats table are
  the dates from index \<open>training_period\<close> on; the backtest table holds, date after date, the
  ticks of these dates with their descriptive columns; and for every evaluation day the
  rows of the day in the backtest table and the day's row of the fitting-stats table are
  the prediction made with the features selected and the model fitted on the snapshot of
  the day. So with three dates and a training period of 2 both tables hold the third date
  alone, and the backtest table is not empty.
\<close>

theorem backtest_training_window:
  assumes "0 \<le> training_period cfg"
  shows "(\<forall>i. training_period cfg \<le> i \<and> i < int (length (dates_of px)) \<longrightarrow>
            (\<exists>train. training_snapshot px (dates_of px) cfg i (dates_of px ! nat i) = Inr train \<and>
               evaluate_day L px cfg (dates_of px) i
                 = bnd (select_feature L train cfg) (\<lambda>features.
                   bnd (fit L train features cfg) (\<lambda>(model, stats).
                     predict_day L (filter (\<lambda>r. date r = dates_of px ! nat i) px) cfg (dates_of px ! nat i)
                       features model stats)) \<and>
               train = filter (\<lambda>r. date r \<in> set (take (nat (training_period cfg))
                                       (drop (nat (i - training_period cfg)) (dates_of px)))) px \<and>
               (\<forall>r\<in>set train. date r < dates_of px ! nat i) \<and>
               date ` set train
                 = set (take (nat (training_period cfg))
                             (drop (nat (i - training_period cfg)) (dates_of px))) \<and>
               card (date ` set train) = nat (training_period cfg))) \<and>
         (\<forall>btdf fs. backtest L px cfg = Inr (btdf, fs) \<longrightarrow>
            map fs_date fs = drop (nat (training_period cfg)) (dates_of px) \<and>
            map (\<lambda>r. (tick.truncate r)\<lparr>cols := Map.empty\<rparr>) btdf
              = map (\<lambda>r. r\<lparr>cols := Map.empty\<rparr>)
                  (concat (map (\<lambda>d. filter (\<lambda>r. date r = d) px)
                               (drop (nat (training_period cfg)) (dates_of px)))) \<and>
            (\<forall>i. training_period cfg \<le> i \<and> i < int (length (dates_of px)) \<longrightarrow>
               (\<exists>train features model stats.
                  training_snapshot px (dates_of px) cfg i (dates_of px ! nat i) = Inr train \<and>
                  select_feature L train cfg = Inr features \<and>
                  fit L train features cfg = Inr (model, stats) \<and>
                  predict_day L (filter (\<lambda>r. date r = dates_of px ! nat i) px) cfg (dates_of px ! nat i)
                       features model stats
                    = Inr (filter (\<lambda>r. date r = dates_of px ! nat i) btdf,
                           fs ! nat (i - training_period cfg)))) \<and>
            (length (dates_of px) = 3 \<and> training_period cfg = 2 \<longrightarrow>
               map fs_date fs = [dates_of px ! 2] \<and> btdf \<noteq> [] \<and>
               (\<forall>r\<in>set btdf. date r = dates_of px ! 2)))"
proof (intro conjI allI impI)
  fix i assume "training_period cfg \<le> i \<and> i < int (length (dates_of px))"
  then show "\<exists>train. training_snapshot px (dates_of px) cfg i (dates_of px ! nat i) = Inr train \<and>
               evaluate_day L px cfg (dates_of px) i
                 = bnd (select_feature L train cfg) (\<lambda>features.
                   bnd (fit L train features cfg) (\<lambda>(model, stats).
                     predict_day L (filter (\<lambda>r. date r = dates_of px ! nat i) px) cfg (dates_of px ! nat i)
                       features model stats)) \<and>
               train = filter (\<lambda>r. date r \<in> set (take (nat (training_period cfg))
                                       (drop (nat (i - training_period cfg)) (dates_of px)))) px \<and>
               (\<forall>r\<in>set train. date r < dates_of px ! nat i) \<and>
               date ` set train
                 = set (take (nat (training_period cfg))
                             (drop (nat (i - training_period cfg)) (dates_of px))) \<and>
               card (date ` set train) = nat (training_period cfg)"
    using training_snapshot_window[OF assms, of i px L] by blast
next
  fix btdf fs assume b: "backtest L px cfg = Inr (btdf, fs)"
  show "map fs_date fs = drop (nat (training_period cfg)) (dates_of px)"
    by (rule backtest_output(1)[OF assms b])
  show "map (\<lambda>r. (tick.truncate r)\<lparr>cols := Map.empty\<rparr>) btdf
              = map (\<lambda>r. r\<lparr>cols := Map.empty\<rparr>)
                  (concat (map (\<lambda>d. filter (\<lambda>r. date r = d) px)
                               (drop (nat (training_period cfg)) (dates_of px))))"
    by (rule backtest_output(2)[OF assms b])
next
  fix btdf fs i
  assume b: "backtest L px cfg = Inr (btdf, fs)"
    and i: "training_period cfg \<le> i \<and> i < int (length (dates_of px))"
  show "\<exists>train features model stats.
                  training_snapshot px (dates_of px) cfg i (dates_of px ! nat i) = Inr train \<and>
                  select_feature L train cfg = Inr features \<and>
                  fit L train features cfg = Inr (model, stats) \<and>
                  predict_day L (filter (\<lambda>r. date r = dates_of px ! nat i) px) cfg (dates_of px ! nat i)
                       features model stats
                    = Inr (filter (\<lambda>r. date r = dates_of px ! nat i) btdf,
                           fs ! nat (i - training_period cfg))"
    by (rule backtest_output(3)[OF assms b i[THEN conjunct1] i[THEN conjunct2]])
next
  fix btdf fs
  assume b: "backtest L px cfg = Inr (btdf, fs)"
    and s: "length (dates_of px) = 3 \<and> training_period cfg = 2"
  from s obtain a b' c where abc: "dates_of px = [a, b', c]"
    by (auto simp: length_Suc_conv numeral_3_eq_3)
  have d: "drop (nat (training_period cfg)) (dates_of px) = [dates_of px ! 2]"
    using s by (simp add: abc)
  show "map fs_date fs = [dates_of px ! 2]"
    using backtest_output(1)[OF assms b] d by simp
  show "btdf \<noteq> []"
    using backtest_output(4)[OF assms b d] by simp
  show "\<forall>r\<in>set btdf. date r = dates_of px ! 2"
    using backtest_output(4)[OF assms b d] by simp
qed

theorem backtest_training_window_witness:
  "0 \<le> training_period ex_config \<and> length (dates_of ex_px) = 3 \<and> training_period ex_config = 2 \<and>
   training_snapshot ex_px (dates_of ex_px) ex_config 2 (dates_of ex_px ! nat 2) = Inr ex_train \<and>
   map idx ex_train = [0, 1, 2, 3] \<and>
   date ` set ex_train = {20131101, 20131104} \<and> card (date ` set ex_train) = 2 \<and>
   select_feature ex_lib ex_train ex_config = Inr [''ofi''] \<and>
   (\<exists>btdf fs. backtest ex_lib ex_px ex_config = Inr (btdf, fs) \<and>
      map fs_date fs = [20131105] \<and> map beta fs = [[11 / 5]] \<and>
      map idx btdf = [4, 5] \<and> map date btdf = [20131105, 20131105] \<and>
      map alpha btdf = [22 / 5, 22 / 5] \<and>
      (\<exists>model stats. fit ex_lib ex_train [''ofi''] ex_config = Inr (model, stats) \<and>
         predict_day ex_lib (filter (\<lambda>r. date r = 20131105) ex_px) ex_config 20131105 [''ofi'']
           model stats = Inr (btdf, fs ! 0)))"
proof -
  have h: "0 \<le> training_period ex_config" and t: "training_period ex_config = 2"
    by (simp_all add: ex_config_def)
  have l: "length (dates_of ex_px) = 3" and n2: "dates_of ex_px ! 2 = 20131105"
    and n2': "dates_of ex_px ! nat 2 = 20131105"
    by (simp_all add: ex_px_dates)
  have i: "training_period ex_config \<le> 2 \<and> 2 < int (length (dates_of ex_px))"
    by (simp add: t l)
  have s: "training_snapshot ex_px (dates_of ex_px) ex_config 2 (dates_of ex_px ! nat 2) = Inr ex_train"
    using ex_snapshot by (simp add: n2)
  have ix: "map idx ex_train = [0, 1, 2, 3]"
    by (simp add: ex_train_def ex_px_def ex_tick_def)
  from ex_backtest_returns obtain btdf fs where
    b: "backtest ex_lib ex_px ex_config = Inr (btdf, fs)" and
    v: "map idx btdf = [4, 5]" "map date btdf = [20131105, 20131105]"
       "map alpha btdf = [22 / 5, 22 / 5]" "map beta fs = [[11 / 5]]"
    by (elim exE conjE)
  note w = backtest_training_window[OF h, of ex_px ex_lib]
  note w1 = w[THEN conjunct1, THEN spec, of 2, THEN mp, OF i]
  from w1 obtain train where
    tr: "training_snapshot ex_px (dates_of ex_px) ex_config 2 (dates_of ex_px ! nat 2) = Inr train"
    and d: "date ` set train
        = set (take (nat (training_period ex_config))
                    (drop (nat (2 - training_period ex_config)) (dates_of ex_px)))"
    and c: "card (date ` set train) = nat (training_period ex_config)"
    by blast
  from tr s have e: "train = ex_train" by simp
  have d': "date ` set ex_train = {20131101, 20131104}"
    using d unfolding e t ex_px_dates by simp
  have c': "card (date ` set ex_train) = 2"
    using c unfolding e t by simp
  note w2 = w[THEN conjunct2, THEN spec, THEN spec, THEN mp, OF b]
  from w2[THEN conjunct1] have o: "map fs_date fs = [20131105]"
    unfolding t ex_px_dates by simp
  note w3 = w2[THEN conjunct2, THEN conjunct2, THEN conjunct1, THEN spec, of 2, THEN mp, OF i]
  from w3 obtain train' features model stats where
    tr': "training_snapshot ex_px (dates_of ex_px) ex_config 2 (dates_of ex_px ! nat 2) = Inr train'"
    and sel: "select_feature ex_lib train' ex_config = Inr features"
    and ft: "fit ex_lib train' features ex_config = Inr (model, stats)"
    and pr: "predict_day ex_lib (filter (\<lambda>r. date r = dates_of ex_px ! nat 2) ex_px) ex_config
                 (dates_of ex_px ! nat 2) features model stats
               = Inr (filter (\<lambda>r. date r = dates_of ex_px ! nat 2) btdf,
                      fs ! nat (2 - training_period ex_config))"
    by blast
  from tr' s have e': "train' = ex_train" by simp
  from sel have fe: "features = [''ofi'']" unfolding e' ex_select by simp
  have all: "filter (\<lambda>r. date r = 20131105) btdf = btdf"
  proof -
    have "\<forall>d\<in>set (map date btdf). d = 20131105" unfolding v(2) by simp
    then show ?thesis by (simp add: filter_id_conv)
  qed
  have pr': "predict_day ex_lib (filter (\<lambda>r. date r = 20131105) ex_px) ex_config 20131105 [''ofi'']
           model stats = Inr (btdf, fs ! 0)"
    using pr unfolding n2' fe t all by simp
  have ft': "fit ex_lib ex_train [''ofi''] ex_config = Inr (model, stats)"
    using ft unfolding e' fe .
  have lk: "\<exists>model stats. fit ex_lib ex_train [''ofi''] ex_config = Inr (model, stats) \<and>
         predict_day ex_lib (filter (\<lambda>r. date r = 20131105) ex_px) ex_config 20131105 [''ofi'']
           model stats = Inr (btdf, fs ! 0)"
    by (intro exI[of _ model] exI[of _ stats] conjI ft' pr')
  have ex: "\<exists>btdf fs. backtest ex_lib ex_px ex_config = Inr (btdf, fs) \<and>
      map fs_date fs = [20131105] \<and> map beta fs = [[11 / 5]] \<and>
      map idx btdf = [4, 5] \<and> map date btdf = [20131105, 20131105] \<and>
      map alpha btdf = [22 / 5, 22 / 5] \<and>
      (\<exists>model stats. fit ex_lib ex_train [''ofi''] ex_config = Inr (model, stats) \<and>
         predict_day ex_lib (filter (\<lambda>r. date r = 20131105) ex_px) ex_config 20131105 [''ofi'']
           model stats = Inr (btdf, fs ! 0))"
    by (intro exI[of _ btdf] exI[of _ fs] conjI b o v lk)
  show ?thesis
    by (intro conjI h l t s ix d' c' ex_select ex)
qed

lemma ex_gaps_train_rows:
  "ex_gaps_train =
     [ex_tick 0 20131101 34200 100 110 [''ofi'' \<mapsto> 1, ''tick_move'' \<mapsto> 1],
      ex_tick 1 20131101 34260 110 120 [''ofi'' \<mapsto> 2, ''tick_move'' \<mapsto> 3],
      ex_tick 2 20131101 34320 120 130 [''oir'' \<mapsto> 1, ''tick_move'' \<mapsto> 2],
      ex_tick 3 20131101 34380 130 140 [''oir'' \<mapsto> 3, ''tick_move'' \<mapsto> 1]]"
  by (simp add: ex_gaps_train_def ex_px_gaps_def ex_tick_def)

lemma ex_gaps_snapshot:
  "training_snapshot ex_px_gaps (dates_of ex_px_gaps) ex_config2 1 20131104 = Inr ex_gaps_train"
  unfolding ex_gaps_dates
  by (simp add: training_snapshot_def py_get_def bnd_def ex_config2_def ex_config_def
                ex_gaps_train_def ex_px_gaps_def ex_tick_def)

lemma ex_gaps_select: "select_feature ex_lib ex_gaps_train ex_config2 = Inr [''ofi'', ''oir'']"
  by (simp add: ex_gaps_train_rows select_feature_def select_one_def lookup_def bnd_def Let_def
                ex_lib_def ex_config2_def ex_config_def ex_corr_def ex_ss_def ex_argmax_def
                fl_of_def List.map_filter_def ex_tick_def power2_eq_square)

lemma ex_gaps_dropna:
  "dropna ([''ofi'', ''oir''] @
           [get_moving_column_name ex_lib (response_column ex_config2) 0 (holding_period ex_config2)])
     ex_gaps_train = []"
  by (simp add: ex_gaps_train_rows dropna_def ex_lib_def ex_config2_def ex_config_def ex_tick_def)

lemma ex_gaps_fit_data:
  "fit_data ex_lib ex_gaps_train [''ofi'', ''oir''] ex_config2 = Inr ([], [])"
  unfolding fit_data_def Let_def ex_gaps_dropna
  by (simp add: column_def List.map_filter_def values_of_def bnd_def lookup_def
                ex_lib_def ex_config2_def ex_config_def)

lemma ex_gaps_fit:
  "fit ex_lib ex_gaps_train [''ofi'', ''oir''] ex_config2 = Inl ValueError"
  unfolding fit_def ex_gaps_fit_data bnd_def sum.case prod.case
  by (simp add: LinearRegression_fit_def)

text \<open>
  C2, as amended. When the fit of an evaluation day fails, because no training row is
  left after dropping the rows with missing values or because \<open>np.linalg.inv\<close> finds the
  matrix singular, \<open>fit\<close> raises \<open>ValueError\<close> or \<open>LinAlgError\<close>, and \<open>backtest\<close> raises
  as well: it returns no table, for that day or any other.
\<close>

theorem backtest_fit_failure_escapes:
  assumes "0 \<le> training_period cfg" and "training_period cfg \<le> i"
    and "i < int (length (dates_of px))"
    and "training_snapshot px (dates_of px) cfg i (dates_of px ! nat i) = Inr train"
    and "select_feature L train cfg = Inr features"
    and "fit_data L train features cfg = Inr (x, y)"
    and "dropna (features @ [get_moving_column_name L (response_column cfg) 0 (holding_period cfg)])
           train = [] \<or>
         np_linalg_inv L (mat_mul (transpose x) x) = None"
  shows "(fit L train features cfg = Inl ValueError \<or> fit L train features cfg = Inl LinAlgError) \<and>
         (\<exists>e. backtest L px cfg = Inl e)"
proof -
  have "x = [] \<or> np_linalg_inv L (mat_mul (transpose x) x) = None"
    using assms(7) fit_data_shape(2)[OF assms(6)] by auto
  from fit_fails[OF assms(6) this]
  have f: "fit L train features cfg = Inl ValueError \<or> fit L train features cfg = Inl LinAlgError" .
  from training_snapshot_window[OF assms(1-3), of L] assms(4)
  have "evaluate_day L px cfg (dates_of px) i
        = bnd (select_feature L train cfg) (\<lambda>features.
          bnd (fit L train features cfg) (\<lambda>(model, stats).
            predict_day L (filter (\<lambda>r. date r = dates_of px ! nat i) px) cfg (dates_of px ! nat i)
                       features model stats))" by auto
  with f assms(5) obtain e where e: "evaluate_day L px cfg (dates_of px) i = Inl e"
    by (auto simp: bnd_def)
  have "i \<in> set [training_period cfg .. int (length (dates_of px)) - 1]"
    using assms(2,3) by simp
  from backtest_loop_fails[OF this e] show ?thesis
    using f by (auto simp: backtest_def)
qed

theorem backtest_fit_failure_escapes_witness:
  "0 \<le> training_period ex_config2 \<and> training_period ex_config2 \<le> 1 \<and>
   1 < int (length (dates_of ex_px_gaps)) \<and>
   training_snapshot ex_px_gaps (dates_of ex_px_gaps) ex_config2 1 (dates_of ex_px_gaps ! nat 1)
     = Inr ex_gaps_train \<and>
   select_feature ex_lib ex_gaps_train ex_config2 = Inr [''ofi'', ''oir''] \<and>
   fit_data ex_lib ex_gaps_train [''ofi'', ''oir''] ex_config2 = Inr ([], []) \<and>
   dropna ([''ofi'', ''oir''] @
           [get_moving_column_name ex_lib (response_column ex_config2) 0 (holding_period ex_config2)])
     ex_gaps_train = [] \<and>
   fit ex_lib ex_gaps_train [''ofi'', ''oir''] ex_config2 = Inl ValueError \<and>
   (\<exists>e. backtest ex_lib ex_px_gaps ex_config2 = Inl e)"
proof -
  have h1: "0 \<le> training_period ex_config2" and h2: "training_period ex_config2 \<le> 1"
    by (simp_all add: ex_config2_def ex_config_def)
  have h3: "1 < int (length (dates_of ex_px_gaps))"
    by (simp add: ex_gaps_dates)
  have h4: "training_snapshot ex_px_gaps (dates_of ex_px_gaps) ex_config2 1
              (dates_of ex_px_gaps ! nat 1) = Inr ex_gaps_train"
    using ex_gaps_snapshot by (simp add: ex_gaps_dates)
  have h7: "dropna ([''ofi'', ''oir''] @
           [get_moving_column_name ex_lib (response_column ex_config2) 0 (holding_period ex_config2)])
     ex_gaps_train = [] \<or>
     np_linalg_inv ex_lib (mat_mul (transpose []) []) = None"
    using ex_gaps_dropna by (rule disjI1)
  note w = backtest_fit_failure_escapes[OF h1 h2 h3 h4 ex_gaps_select ex_gaps_fit_data h7]
  have f: "fit ex_lib ex_gaps_train [''ofi'', ''oir''] ex_config2 = Inl ValueError"
    using w[THEN conjunct1] by (simp add: ex_gaps_fit)
  show ?thesis
    by (intro conjI h1 h2 h3 h4 ex_gaps_select ex_gaps_fit_data ex_gaps_dropna f w[THEN conjunct2])
qed

text \<open>
  C2, the claim as stated, fails: on a history whose training date has no row with both
  features and the response, \<open>backtest\<close> raises the \<open>ValueError\<close> of the fit instead of
  returning tables with a row of NaN diagnostics.
\<close>

theorem backtest_fit_failure_counterexample:
  "backtest ex_lib ex_px_gaps ex_config2 = Inl ValueError"
proof -
  have ev: "evaluate_day ex_lib ex_px_gaps ex_config2 [20131101, 20131104, 20131105] 1 = Inl ValueError"
    using ex_gaps_snapshot
    by (simp add: evaluate_day_def py_get_def bnd_def ex_gaps_dates
                  ex_gaps_select ex_gaps_fit)
  have ixs: "[training_period ex_config2 .. int (length [20131101, 20131104, 20131105 :: int]) - 1] = [1, 2]"
    by (simp add: ex_config2_def ex_config_def upto_rec1)
  show ?thesis
    unfolding backtest_def ex_gaps_dates ixs by (simp add: ev bnd_def)
qed

end
